theory Spec2Isabelle
  imports Main "HOL-Library.Sublist" "HOL-Library.AList"
begin

section \<open>Values, exceptions and the outside world\<close>

text \<open>
  The library (salesforce_bulk/salesforce_bulk.py) is Python 2: it talks to a remote
  server through the requests package and keeps its own state in the fields of
  Batch and Job objects. Parsed JSON is what the code handles as data; Python's
  None is the parsed null. Numbers are modelled as integers.
\<close>

datatype json =
    JNull
  | JBool bool
  | JNum int
  | JStr string
  | JArr "json list"
  | JObj "(string \<times> json) list"

text \<open>
  The exception classes of the file (BulkApiError with its status_code,
  BulkBatchFailed with job_id, batch_id and state_message, BulkJobAborted) and the
  built-in ones the code can raise.
\<close>

datatype exn =
    BulkApiError string json
  | BulkJobAborted json
  | BulkBatchFailed json json json
  | RuntimeError string
  | AttributeError string
  | KeyError string
  | TypeError
  | ValueError
  | IOError
  | ParseError
  | ConnectionError
  | AssertionError

text \<open>
  A response of the requests package, as far as the code reads it: status_code,
  text (here \<open>response_text\<close>),
  the result of json() (None when the body is not JSON, where json() raises
  ValueError) and, for the login reply, the XML document seen as a table from a
  search path to the text of the first element found (None when the content does
  not parse; an element's text can itself be None).
\<close>

record response =
  status_code :: int
  response_text :: string
  json_body :: "json option"
  xml_body :: "(string \<times> string option) list option"

record session =
  headers :: "(string \<times> string option) list"

datatype body = JsonBody json | DataBody string

text \<open>
  What the code does to the outside world, in the order it does it: a GET or a
  POST with the headers sent (a header's value is a str or None), and a sleep of
  so many seconds.
\<close>

datatype event =
    Get "(string \<times> string option) list" string
  | Post "(string \<times> string option) list" string body
  | Sleep int

text \<open>
  The environment of a run. \<open>srv\<close> is the network: the answer to a request, given
  everything that happened before it (an exception of the transport, or a
  response). \<open>fmt\<close> is the text that str.format gives for a parsed JSON value;
  \<open>hostname\<close> is urlparse(...).hostname; \<open>new_session\<close> is what requests.Session()
  returns.

  The module bulk_states, which the file imports, is not among the sources:
  \<open>COMPLETED\<close> and \<open>ERROR_STATES\<close> stand for bulk_states.COMPLETED and
  bulk_states.ERROR_STATES, a state name and a collection of state names, and are
  parameters: every theorem holds for any choice of them.
\<close>

record env =
  srv :: "event list \<Rightarrow> event \<Rightarrow> exn + response"
  COMPLETED :: string
  ERROR_STATES :: "string list"
  fmt :: "json \<Rightarrow> string"
  hostname :: "string \<Rightarrow> string option"
  new_session :: session

definition session_get :: "env \<Rightarrow> session \<Rightarrow> string \<Rightarrow> event list \<Rightarrow> (exn + response) \<times> event list" where
  "session_get e s uri tr = (srv e tr (Get (headers s) uri), tr @ [Get (headers s) uri])"

definition session_post :: "env \<Rightarrow> session \<Rightarrow> string \<Rightarrow> body \<Rightarrow> event list \<Rightarrow> (exn + response) \<times> event list" where
  "session_post e s uri b tr = (srv e tr (Post (headers s) uri b), tr @ [Post (headers s) uri b])"

text \<open>time.sleep raises on a negative argument (IOError in Python 2).\<close>

definition time_sleep :: "int \<Rightarrow> event list \<Rightarrow> (exn + unit) \<times> event list" where
  "time_sleep n tr = (if n < 0 then (Inl IOError, tr) else (Inr (), tr @ [Sleep n]))"

definition response_json :: "response \<Rightarrow> exn + json" where
  "response_json r = (case json_body r of None \<Rightarrow> Inl ValueError | Some v \<Rightarrow> Inr v)"

text \<open>
  Attribute lookup on a response, for the names the code uses: requests.Response
  has status_code and text, and it has no attribute named status.
\<close>

definition response_getattr :: "response \<Rightarrow> string \<Rightarrow> exn + json" where
  "response_getattr r name =
     (if name = ''status_code'' then Inr (JNum (status_code r))
      else if name = ''text'' then Inr (JStr (response_text r))
      else Inl (AttributeError name))"

subsection \<open>Python's operators on parsed JSON\<close>

text \<open>\<open>key in v\<close> for a str key: keys of a dict, elements of a list, substrings of a string.\<close>

definition py_contains :: "string \<Rightarrow> json \<Rightarrow> exn + bool" where
  "py_contains k v =
     (case v of
        JObj kvs \<Rightarrow> Inr (map_of kvs k \<noteq> None)
      | JArr xs \<Rightarrow> Inr (JStr k \<in> set xs)
      | JStr s \<Rightarrow> Inr (sublist k s)
      | _ \<Rightarrow> Inl TypeError)"

text \<open>\<open>v[key]\<close> for a str key.\<close>

definition py_getitem :: "json \<Rightarrow> string \<Rightarrow> exn + json" where
  "py_getitem v k =
     (case v of
        JObj kvs \<Rightarrow> (case map_of kvs k of None \<Rightarrow> Inl (KeyError k) | Some x \<Rightarrow> Inr x)
      | _ \<Rightarrow> Inl TypeError)"

text \<open>
  \<open>for row in v\<close>: the elements of a list, the keys of a dict, the characters of a
  string.
\<close>

definition py_iter :: "json \<Rightarrow> exn + json list" where
  "py_iter v =
     (case v of
        JArr xs \<Rightarrow> Inr xs
      | JObj kvs \<Rightarrow> Inr (map (\<lambda>kv. JStr (fst kv)) kvs)
      | JStr s \<Rightarrow> Inr (map (\<lambda>c. JStr [c]) s)
      | _ \<Rightarrow> Inl TypeError)"

section \<open>SalesforceBulk.check_status\<close>

definition check_status :: "response \<Rightarrow> exn + unit" where
  "check_status response =
     (if status_code response \<ge> 400 then
        (let msg = ''Bulk API HTTP Error result: '' @ response_text response in
         case response_getattr response ''status'' of
           Inl e \<Rightarrow> Inl e
         | Inr st \<Rightarrow> Inl (BulkApiError msg st))
      else Inr ())"

section \<open>Batch\<close>

text \<open>
  A Batch object: session, endpoint, batch_id and the cached status (\<open>p_status\<close> is the
  source's _status; JNull is None). \<open>is_query\<close> tells a BatchQuery, which overrides
  results, from a plain Batch.
\<close>

record batch =
  session :: session
  endpoint :: string
  batch_id :: json
  p_status :: json
  is_query :: bool

definition Batch_init :: "env \<Rightarrow> session \<Rightarrow> string \<Rightarrow> json \<Rightarrow> batch" where
  "Batch_init e s job_endpoint bid =
     \<lparr>session = s, endpoint = job_endpoint @ ''/batch/'' @ fmt e bid, batch_id = bid,
      p_status = JNull, is_query = False\<rparr>"

definition BatchQuery_init :: "env \<Rightarrow> session \<Rightarrow> string \<Rightarrow> json \<Rightarrow> batch" where
  "BatchQuery_init e s job_endpoint bid = (Batch_init e s job_endpoint bid)\<lparr>is_query := True\<rparr>"

text \<open>
  Every method takes the object and the trace of events so far and returns its
  outcome (\<open>Inl\<close> an exception, \<open>Inr\<close> the value) with the object and the trace as
  they are afterwards: an exception does not undo what was done before it.
\<close>

definition Batch_status :: "env \<Rightarrow> bool \<Rightarrow> batch \<times> event list \<Rightarrow> (exn + json) \<times> batch \<times> event list" where
  "Batch_status e reload s =
     (case s of (b, tr) \<Rightarrow>
        if reload \<or> p_status b = JNull then
          (case session_get e (session b) (endpoint b) tr of
             (Inl x, tr1) \<Rightarrow> (Inl x, b, tr1)
           | (Inr resp, tr1) \<Rightarrow>
               (case check_status resp of
                  Inl x \<Rightarrow> (Inl x, b, tr1)
                | Inr _ \<Rightarrow>
                    (case response_json resp of
                       Inl x \<Rightarrow> (Inl x, b, tr1)
                     | Inr v \<Rightarrow> (Inr v, b\<lparr>p_status := v\<rparr>, tr1))))
        else (Inr (p_status b), b, tr))"

text \<open>\<open>batch_state in bulk_states.ERROR_STATES\<close> and \<open>batch_state == bulk_states.COMPLETED\<close>.\<close>

definition in_error_states :: "env \<Rightarrow> json \<Rightarrow> bool" where
  "in_error_states e v = (v \<in> JStr ` set (ERROR_STATES e))"

definition Batch_is_done :: "env \<Rightarrow> bool \<Rightarrow> batch \<times> event list \<Rightarrow> (exn + bool) \<times> batch \<times> event list" where
  "Batch_is_done e reload s =
     (case Batch_status e reload s of
        (Inl x, b, tr) \<Rightarrow> (Inl x, b, tr)
      | (Inr batch_status, b, tr) \<Rightarrow>
          (case py_contains ''state'' batch_status of
             Inl x \<Rightarrow> (Inl x, b, tr)
           | Inr has_state \<Rightarrow>
               (case (if has_state then py_getitem batch_status ''state'' else Inr JNull) of
                  Inl x \<Rightarrow> (Inl x, b, tr)
                | Inr batch_state \<Rightarrow>
                    if in_error_states e batch_state then
                      (case py_getitem batch_status ''jobId'' of
                         Inl x \<Rightarrow> (Inl x, b, tr)
                       | Inr jid \<Rightarrow>
                           (case py_getitem batch_status ''id'' of
                              Inl x \<Rightarrow> (Inl x, b, tr)
                            | Inr bid \<Rightarrow>
                                (case py_getitem batch_status ''stateMessage'' of
                                   Inl x \<Rightarrow> (Inl x, b, tr)
                                 | Inr msg \<Rightarrow> (Inl (BulkBatchFailed jid bid msg), b, tr))))
                    else (Inr (batch_state = JStr (COMPLETED e)), b, tr))))"

text \<open>
  Batch.wait: the loop \<open>while not self.is_done(True) and waited < timeout\<close>. With a
  sleep interval of 0 and a batch that never completes the loop never ends, so the
  function is partial: \<open>None\<close> is a run that does not return. \<open>timeout\<close> and
  \<open>sleep_interval\<close> are whole seconds.
\<close>

partial_function (option) wait_loop ::
  "env \<Rightarrow> int \<Rightarrow> int \<Rightarrow> int \<Rightarrow> batch \<times> event list \<Rightarrow> ((exn + unit) \<times> batch \<times> event list) option" where
  "wait_loop e timeout sleep_interval waited s =
     (case Batch_is_done e True s of
        (Inl x, b, tr) \<Rightarrow> Some (Inl x, b, tr)
      | (Inr d, b, tr) \<Rightarrow>
          if \<not> d \<and> waited < timeout then
            (case time_sleep sleep_interval tr of
               (Inl x, tr1) \<Rightarrow> Some (Inl x, b, tr1)
             | (Inr _, tr1) \<Rightarrow> wait_loop e timeout sleep_interval (waited + sleep_interval) (b, tr1))
          else Some (Inr (), b, tr))"

definition Batch_wait ::
  "env \<Rightarrow> int \<Rightarrow> int \<Rightarrow> batch \<times> event list \<Rightarrow> ((exn + unit) \<times> batch \<times> event list) option" where
  "Batch_wait e timeout sleep_interval s = wait_loop e timeout sleep_interval 0 s"

text \<open>
  The results methods are generators. A run of one is the list of rows it yields
  when it is drained, the exception that ended it (if one did), and the state
  afterwards.
\<close>

type_synonym yielded = "json list \<times> exn option"

definition Batch_results :: "env \<Rightarrow> batch \<times> event list \<Rightarrow> (yielded \<times> batch \<times> event list) option" where
  "Batch_results e s =
     (case Batch_is_done e False s of
        (Inl x, b, tr) \<Rightarrow> Some (([], Some x), b, tr)
      | (Inr d, b, tr) \<Rightarrow>
          (case (if \<not> d then Batch_wait e (60 * 10) 10 (b, tr) else Some (Inr (), b, tr)) of
             None \<Rightarrow> None
           | Some (Inl x, b1, tr1) \<Rightarrow> Some (([], Some x), b1, tr1)
           | Some (Inr _, b1, tr1) \<Rightarrow>
               (case session_get e (session b1) (endpoint b1 @ ''/result'') tr1 of
                  (Inl x, tr2) \<Rightarrow> Some (([], Some x), b1, tr2)
                | (Inr resp, tr2) \<Rightarrow>
                    (case check_status resp of
                       Inl x \<Rightarrow> Some (([], Some x), b1, tr2)
                     | Inr _ \<Rightarrow>
                         (case response_json resp of
                            Inl x \<Rightarrow> Some (([], Some x), b1, tr2)
                          | Inr v \<Rightarrow>
                              (case py_iter v of
                                 Inl x \<Rightarrow> Some (([], Some x), b1, tr2)
                               | Inr rows \<Rightarrow> Some ((rows, None), b1, tr2)))))))"

text \<open>The loop \<open>for result_id in result_ids\<close> of BatchQuery.results.\<close>

fun result_chunks :: "env \<Rightarrow> batch \<Rightarrow> json list \<Rightarrow> event list \<Rightarrow> yielded \<times> event list" where
  "result_chunks e b [] tr = (([], None), tr)"
| "result_chunks e b (result_id # result_ids) tr =
     (case session_get e (session b) (endpoint b @ ''/result/'' @ fmt e result_id) tr of
        (Inl x, tr1) \<Rightarrow> (([], Some x), tr1)
      | (Inr resp, tr1) \<Rightarrow>
          (case check_status resp of
             Inl x \<Rightarrow> (([], Some x), tr1)
           | Inr _ \<Rightarrow>
               (case response_json resp of
                  Inl x \<Rightarrow> (([], Some x), tr1)
                | Inr v \<Rightarrow>
                    (case py_iter v of
                       Inl x \<Rightarrow> (([], Some x), tr1)
                     | Inr rows \<Rightarrow>
                         (case result_chunks e b result_ids tr1 of
                            ((rows', x), tr2) \<Rightarrow> ((rows @ rows', x), tr2))))))"

definition BatchQuery_results :: "env \<Rightarrow> batch \<times> event list \<Rightarrow> (yielded \<times> batch \<times> event list) option" where
  "BatchQuery_results e s =
     (case Batch_is_done e False s of
        (Inl x, b, tr) \<Rightarrow> Some (([], Some x), b, tr)
      | (Inr d, b, tr) \<Rightarrow>
          (case (if \<not> d then Batch_wait e (60 * 10) 10 (b, tr) else Some (Inr (), b, tr)) of
             None \<Rightarrow> None
           | Some (Inl x, b1, tr1) \<Rightarrow> Some (([], Some x), b1, tr1)
           | Some (Inr _, b1, tr1) \<Rightarrow>
               (case session_get e (session b1) (endpoint b1 @ ''/result'') tr1 of
                  (Inl x, tr2) \<Rightarrow> Some (([], Some x), b1, tr2)
                | (Inr resp, tr2) \<Rightarrow>
                    (case check_status resp of
                       Inl x \<Rightarrow> Some (([], Some x), b1, tr2)
                     | Inr _ \<Rightarrow>
                         (case response_json resp of
                            Inl x \<Rightarrow> Some (([], Some x), b1, tr2)
                          | Inr result_ids \<Rightarrow>
                              (case py_iter result_ids of
                                 Inl x \<Rightarrow> Some (([], Some x), b1, tr2)
                               | Inr ids \<Rightarrow>
                                   (case result_chunks e b1 ids tr2 of
                                      (y, tr3) \<Rightarrow> Some (y, b1, tr3))))))))"

text \<open>\<open>batch.results()\<close> on an element of a job's list: the method of the object's class.\<close>

definition results_of :: "env \<Rightarrow> batch \<times> event list \<Rightarrow> (yielded \<times> batch \<times> event list) option" where
  "results_of e s = (if is_query (fst s) then BatchQuery_results e s else Batch_results e s)"

section \<open>Job\<close>

record job =
  job_session :: session
  job_endpoint :: string
  job_id :: json
  batches :: "batch list"

definition Job_init :: "env \<Rightarrow> session \<Rightarrow> string \<Rightarrow> json \<Rightarrow> job" where
  "Job_init e s endpoint0 jid =
     \<lparr>job_session = s, job_endpoint = endpoint0 @ ''/job/'' @ fmt e jid, job_id = jid, batches = []\<rparr>"

definition Job_close :: "env \<Rightarrow> job \<times> event list \<Rightarrow> (exn + unit) \<times> job \<times> event list" where
  "Job_close e s =
     (case s of (j, tr) \<Rightarrow>
        (case session_post e (job_session j) (job_endpoint j)
                (JsonBody (JObj [(''state'', JStr ''Closed'')])) tr of
           (Inl x, tr1) \<Rightarrow> (Inl x, j, tr1)
         | (Inr resp, tr1) \<Rightarrow>
             (case check_status resp of
                Inl x \<Rightarrow> (Inl x, j, tr1)
              | Inr _ \<Rightarrow> (Inr (), j, tr1))))"

definition Job_abort :: "env \<Rightarrow> job \<times> event list \<Rightarrow> (exn + unit) \<times> job \<times> event list" where
  "Job_abort e s =
     (case s of (j, tr) \<Rightarrow>
        (case session_post e (job_session j) (job_endpoint j)
                (JsonBody (JObj [(''state'', JStr ''Aborted'')])) tr of
           (Inl x, tr1) \<Rightarrow> (Inl x, j, tr1)
         | (Inr resp, tr1) \<Rightarrow>
             (case check_status resp of
                Inl x \<Rightarrow> (Inl x, j, tr1)
              | Inr _ \<Rightarrow> (Inr (), j, tr1))))"

definition Job_query :: "env \<Rightarrow> string \<Rightarrow> job \<times> event list \<Rightarrow> (exn + batch) \<times> job \<times> event list" where
  "Job_query e soql s =
     (case s of (j, tr) \<Rightarrow>
        (case session_post e (job_session j) (job_endpoint j @ ''/batch'') (DataBody soql) tr of
           (Inl x, tr1) \<Rightarrow> (Inl x, j, tr1)
         | (Inr resp, tr1) \<Rightarrow>
             (case check_status resp of
                Inl x \<Rightarrow> (Inl x, j, tr1)
              | Inr _ \<Rightarrow>
                  (case response_json resp of
                     Inl x \<Rightarrow> (Inl x, j, tr1)
                   | Inr v \<Rightarrow>
                       (case py_getitem v ''id'' of
                          Inl x \<Rightarrow> (Inl x, j, tr1)
                        | Inr bid \<Rightarrow>
                            (let batch = BatchQuery_init e (job_session j) (job_endpoint j) bid
                             in (Inr batch, j\<lparr>batches := batches j @ [batch]\<rparr>, tr1)))))))"

text \<open>
  \<open>xrange(start, stop, step)\<close> for a step other than 0 (a step of 0 raises
  ValueError, see \<open>Job_post\<close>), and the slice \<open>xs[i:j]\<close> of a list.
\<close>

function xrange :: "int \<Rightarrow> int \<Rightarrow> int \<Rightarrow> int list" where
  "xrange start stop step =
     (if 0 < step \<and> start < stop \<or> step < 0 \<and> stop < start
      then start # xrange (start + step) stop step else [])"
  by pat_completeness auto
termination
  by (relation "measure (\<lambda>(start, stop, step). nat (if 0 < step then stop - start else start - stop))")
     auto

declare xrange.simps [simp del]

definition py_slice :: "'a list \<Rightarrow> int \<Rightarrow> int \<Rightarrow> 'a list" where
  "py_slice xs i j =
     (let n = int (length xs);
          lo = (if i < 0 then max 0 (n + i) else min i n);
          hi = (if j < 0 then max 0 (n + j) else min j n)
      in take (nat (hi - lo)) (drop (nat lo) xs))"

text \<open>
  Job.post: the body of \<open>for i in xrange(0, len(data), batch_size)\<close>, run over the
  indices left; \<open>created\<close> is the local list \<open>batches\<close> of the source.
\<close>

fun post_loop ::
  "env \<Rightarrow> string \<Rightarrow> json list \<Rightarrow> int \<Rightarrow> int list \<Rightarrow> batch list \<Rightarrow> job \<times> event list
     \<Rightarrow> (exn + batch list) \<times> job \<times> event list" where
  "post_loop e uri data batch_size [] created (j, tr) = (Inr created, j, tr)"
| "post_loop e uri data batch_size (i # rest) created (j, tr) =
     (case session_post e (job_session j) uri
             (JsonBody (JArr (py_slice data i (i + batch_size)))) tr of
        (Inl x, tr1) \<Rightarrow> (Inl x, j, tr1)
      | (Inr resp, tr1) \<Rightarrow>
          (case check_status resp of
             Inl x \<Rightarrow> (Inl x, j, tr1)
           | Inr _ \<Rightarrow>
               (case response_json resp of
                  Inl x \<Rightarrow> (Inl x, j, tr1)
                | Inr v \<Rightarrow>
                    (case py_getitem v ''id'' of
                       Inl x \<Rightarrow> (Inl x, j, tr1)
                     | Inr bid \<Rightarrow>
                         (let batch = Batch_init e (job_session j) (job_endpoint j) bid
                          in post_loop e uri data batch_size rest (created @ [batch])
                               (j\<lparr>batches := batches j @ [batch]\<rparr>, tr1))))))"

definition Job_post ::
  "env \<Rightarrow> json list \<Rightarrow> int \<Rightarrow> job \<times> event list \<Rightarrow> (exn + batch list) \<times> job \<times> event list" where
  "Job_post e data batch_size s =
     (case s of (j, tr) \<Rightarrow>
        if batch_size = 0 then (Inl ValueError, j, tr)
        else post_loop e (job_endpoint j @ ''/batch'') data batch_size
               (xrange 0 (int (length data)) batch_size) [] (j, tr))"

definition DEFAULT_BATCH_SIZE :: int where
  "DEFAULT_BATCH_SIZE = 2500"

text \<open>
  Job.is_done: the loop over \<open>self.batches\<close>; the list returned holds the batches as
  they are after the call.
\<close>

fun is_done_loop :: "env \<Rightarrow> batch list \<Rightarrow> event list \<Rightarrow> (exn + bool) \<times> batch list \<times> event list" where
  "is_done_loop e [] tr = (Inr True, [], tr)"
| "is_done_loop e (b # bs) tr =
     (case Batch_is_done e False (b, tr) of
        (Inl x, b1, tr1) \<Rightarrow> (Inl x, b1 # bs, tr1)
      | (Inr d, b1, tr1) \<Rightarrow>
          if \<not> d then (Inr False, b1 # bs, tr1)
          else (case is_done_loop e bs tr1 of (r, bs1, tr2) \<Rightarrow> (r, b1 # bs1, tr2)))"

definition Job_is_done :: "env \<Rightarrow> job \<times> event list \<Rightarrow> (exn + bool) \<times> job \<times> event list" where
  "Job_is_done e s =
     (case s of (j, tr) \<Rightarrow>
        (case is_done_loop e (batches j) tr of (r, bs, tr1) \<Rightarrow> (r, j\<lparr>batches := bs\<rparr>, tr1)))"

fun wait_each ::
  "env \<Rightarrow> int \<Rightarrow> int \<Rightarrow> batch list \<Rightarrow> event list \<Rightarrow> ((exn + unit) \<times> batch list \<times> event list) option" where
  "wait_each e timeout sleep_interval [] tr = Some (Inr (), [], tr)"
| "wait_each e timeout sleep_interval (b # bs) tr =
     (case Batch_wait e timeout sleep_interval (b, tr) of
        None \<Rightarrow> None
      | Some (Inl x, b1, tr1) \<Rightarrow> Some (Inl x, b1 # bs, tr1)
      | Some (Inr _, b1, tr1) \<Rightarrow>
          (case wait_each e timeout sleep_interval bs tr1 of
             None \<Rightarrow> None
           | Some (r, bs1, tr2) \<Rightarrow> Some (r, b1 # bs1, tr2)))"

definition Job_wait ::
  "env \<Rightarrow> int \<Rightarrow> int \<Rightarrow> job \<times> event list \<Rightarrow> ((exn + unit) \<times> job \<times> event list) option" where
  "Job_wait e timeout sleep_interval s =
     (case s of (j, tr) \<Rightarrow>
        (case wait_each e timeout sleep_interval (batches j) tr of
           None \<Rightarrow> None
         | Some (r, bs, tr1) \<Rightarrow> Some (r, j\<lparr>batches := bs\<rparr>, tr1)))"

text \<open>Job.results: the nested loops over \<open>self.batches\<close> and over each \<open>batch.results()\<close>.\<close>

fun results_each :: "env \<Rightarrow> batch list \<Rightarrow> event list \<Rightarrow> (yielded \<times> batch list \<times> event list) option" where
  "results_each e [] tr = Some (([], None), [], tr)"
| "results_each e (b # bs) tr =
     (case results_of e (b, tr) of
        None \<Rightarrow> None
      | Some ((rows, Some x), b1, tr1) \<Rightarrow> Some ((rows, Some x), b1 # bs, tr1)
      | Some ((rows, None), b1, tr1) \<Rightarrow>
          (case results_each e bs tr1 of
             None \<Rightarrow> None
           | Some ((rows', x), bs1, tr2) \<Rightarrow> Some ((rows @ rows', x), b1 # bs1, tr2)))"

definition Job_results :: "env \<Rightarrow> job \<times> event list \<Rightarrow> (yielded \<times> job \<times> event list) option" where
  "Job_results e s =
     (case Job_is_done e s of
        (Inl x, j, tr) \<Rightarrow> Some (([], Some x), j, tr)
      | (Inr d, j, tr) \<Rightarrow>
          (case (if \<not> d then Job_wait e (60 * 10) 10 (j, tr) else Some (Inr (), j, tr)) of
             None \<Rightarrow> None
           | Some (Inl x, j1, tr1) \<Rightarrow> Some (([], Some x), j1, tr1)
           | Some (Inr _, j1, tr1) \<Rightarrow>
               (case results_each e (batches j1) tr1 of
                  None \<Rightarrow> None
                | Some (y, bs, tr2) \<Rightarrow> Some (y, j1\<lparr>batches := bs\<rparr>, tr2))))"

text \<open>
  The context manager. \<open>__exit__\<close> calls close and returns None; \<open>with_Job\<close> is
  Python's with statement around a job: the body gets what \<open>__enter__\<close> returns,
  \<open>__exit__\<close> runs however the body ends, and an exception of the body goes on
  unless \<open>__exit__\<close> returns a true value. The outcome \<open>Inr None\<close> is a body whose
  exception was suppressed.
\<close>

definition Job_enter :: "job \<Rightarrow> job" where
  "Job_enter self = self"

definition Job_exit :: "env \<Rightarrow> exn option \<Rightarrow> job \<times> event list \<Rightarrow> (exn + json) \<times> job \<times> event list" where
  "Job_exit e exc s =
     (case Job_close e s of
        (Inl x, j, tr) \<Rightarrow> (Inl x, j, tr)
      | (Inr _, j, tr) \<Rightarrow> (Inr JNull, j, tr))"

definition py_truthy :: "json \<Rightarrow> bool" where
  "py_truthy v =
     (case v of
        JNull \<Rightarrow> False
      | JBool b \<Rightarrow> b
      | JNum n \<Rightarrow> n \<noteq> 0
      | JStr s \<Rightarrow> s \<noteq> []
      | JArr xs \<Rightarrow> xs \<noteq> []
      | JObj kvs \<Rightarrow> kvs \<noteq> [])"

definition with_Job ::
  "env \<Rightarrow> (job \<times> event list \<Rightarrow> (exn + 'a) \<times> job \<times> event list) \<Rightarrow> job \<times> event list
     \<Rightarrow> (exn + 'a option) \<times> job \<times> event list" where
  "with_Job e block s =
     (case s of (j, tr) \<Rightarrow>
        (case block (Job_enter j, tr) of
           (Inr v, j1, tr1) \<Rightarrow>
             (case Job_exit e None (j1, tr1) of
                (Inl x, j2, tr2) \<Rightarrow> (Inl x, j2, tr2)
              | (Inr _, j2, tr2) \<Rightarrow> (Inr (Some v), j2, tr2))
         | (Inl x, j1, tr1) \<Rightarrow>
             (case Job_exit e (Some x) (j1, tr1) of
                (Inl x', j2, tr2) \<Rightarrow> (Inl x', j2, tr2)
              | (Inr r, j2, tr2) \<Rightarrow>
                  if py_truthy r then (Inr None, j2, tr2) else (Inl x, j2, tr2))))"

section \<open>SalesforceBulk\<close>

text \<open>
  Optional arguments (sessionId, username, password and the like) are a str or
  None; \<open>py_str\<close> is the text that str.format puts for one, \<open>py_bool\<close> its truth
  value.
\<close>

definition py_str :: "string option \<Rightarrow> string" where
  "py_str v = (case v of None \<Rightarrow> ''None'' | Some s \<Rightarrow> s)"

definition py_bool :: "string option \<Rightarrow> bool" where
  "py_bool v = (case v of None \<Rightarrow> False | Some s \<Rightarrow> s \<noteq> [])"

text \<open>The envelope \<open>LOGIN.format(username=username, password=password)\<close>.\<close>

definition LOGIN_format :: "string \<Rightarrow> string \<Rightarrow> string" where
  \<open>LOGIN_format username password =
     ''<?xml version="1.0" encoding="utf-8" ?>'' @
     ''<env:Envelope xmlns:xsd="http://www.w3.org/2001/XMLSchema"'' @
     ''    xmlns:xsi="http://www.w3.org/2001/XMLSchema-instance"'' @
     ''    xmlns:env="http://schemas.xmlsoap.org/soap/envelope/">'' @
     ''  <env:Body>'' @
     ''    <n1:login xmlns:n1="urn:partner.soap.sforce.com">'' @
     ''      <n1:username>'' @ username @ ''</n1:username>'' @
     ''      <n1:password>'' @ password @ ''</n1:password>'' @
     ''    </n1:login>'' @
     ''  </env:Body>'' @
     ''</env:Envelope>''\<close>

definition SERVER_URL :: string where
  "SERVER_URL = ''.//{urn:partner.soap.sforce.com}serverUrl''"

definition SESSION_ID :: string where
  "SESSION_ID = ''.//{urn:partner.soap.sforce.com}sessionId''"

definition login_headers :: "(string \<times> string option) list" where
  "login_headers = [(''Content-Type'', Some ''text/xml; charset=UTF-8''), (''SOAPAction'', Some ''login'')]"

text \<open>\<open>requests.post(url, data=..., headers=...)\<close>, outside any session.\<close>

definition requests_post ::
  "env \<Rightarrow> string \<Rightarrow> string \<Rightarrow> (string \<times> string option) list \<Rightarrow> event list \<Rightarrow> (exn + response) \<times> event list" where
  "requests_post e uri payload hs tr = (srv e tr (Post hs uri (DataBody payload)), tr @ [Post hs uri (DataBody payload)])"

text \<open>
  SalesforceBulk.login. The reply is not passed to check_status. A path that finds
  no element gives None, whose \<open>.text\<close> raises AttributeError; urlparse of a text
  that is None raises AttributeError as well.
\<close>

definition login ::
  "env \<Rightarrow> string option \<Rightarrow> string option \<Rightarrow> string \<Rightarrow> string \<Rightarrow> event list
     \<Rightarrow> (exn + string option \<times> string option) \<times> event list" where
  "login e username password host API_version tr =
     (let payload = LOGIN_format (py_str username) (py_str password);
          login_endpoint = ''https://'' @ host @ ''/services/Soap/u/'' @ API_version
      in case requests_post e login_endpoint payload login_headers tr of
           (Inl x, tr1) \<Rightarrow> (Inl x, tr1)
         | (Inr r, tr1) \<Rightarrow>
             (case xml_body r of
                None \<Rightarrow> (Inl ParseError, tr1)
              | Some tree \<Rightarrow>
                  (case map_of tree SERVER_URL of
                     None \<Rightarrow> (Inl (AttributeError ''text''), tr1)
                   | Some None \<Rightarrow> (Inl (AttributeError ''find''), tr1)
                   | Some (Some url) \<Rightarrow>
                       (case map_of tree SESSION_ID of
                          None \<Rightarrow> (Inl (AttributeError ''text''), tr1)
                        | Some sid \<Rightarrow> (Inr (hostname e url, sid), tr1)))))"

record bulk =
  bulk_endpoint :: string
  bulk_session :: session

text \<open>
  SalesforceBulk.__init__ (the argument exception_class is never read). The
  assignment \<open>host, sessionId = SalesforceBulk.login(...)\<close> overwrites both arguments.
\<close>

definition SalesforceBulk_init ::
  "env \<Rightarrow> string option \<Rightarrow> string \<Rightarrow> string option \<Rightarrow> string option \<Rightarrow> string \<Rightarrow> event list
     \<Rightarrow> (exn + bulk) \<times> event list" where
  "SalesforceBulk_init e sessionId host username password API_version tr =
     (if \<not> py_bool sessionId \<and> \<not> py_bool username then
        (Inl (RuntimeError ''Must supply either sessionId/instance_url or username/password''), tr)
      else
        (case login e username password host API_version tr of
           (Inl x, tr1) \<Rightarrow> (Inl x, tr1)
         | (Inr (host1, sessionId1), tr1) \<Rightarrow>
             (let s0 = new_session e;
                  s1 = s0\<lparr>headers := AList.update ''X-SFDC-Session'' sessionId1 (headers s0)\<rparr>;
                  s2 = s1\<lparr>headers := AList.update ''Content-Type'' (Some ''application/json'') (headers s1)\<rparr>
              in (Inr \<lparr>bulk_endpoint = ''https://'' @ py_str host1 @ ''/services/async/'' @ API_version,
                       bulk_session = s2\<rparr>, tr1))))"

definition create_job ::
  "env \<Rightarrow> string option \<Rightarrow> string option \<Rightarrow> string option \<Rightarrow> string option \<Rightarrow> bulk \<times> event list
     \<Rightarrow> (exn + job) \<times> event list" where
  "create_job e object_name operation concurrency external_id_name s =
     (case s of (self, tr) \<Rightarrow>
        (case (object_name, operation) of
           (None, _) \<Rightarrow> (Inl AssertionError, tr)
         | (Some _, None) \<Rightarrow> (Inl AssertionError, tr)
         | (Some obj, Some oper) \<Rightarrow>
             (let d0 = [(''operation'', JStr oper), (''object'', JStr obj), (''contentType'', JStr ''JSON'')];
                  d1 = (if py_bool external_id_name
                        then AList.update ''externalIdFieldName'' (JStr (py_str external_id_name)) d0 else d0);
                  d2 = (if py_bool concurrency
                        then AList.update ''concurrencyMode'' (JStr (py_str concurrency)) d1 else d1)
              in case session_post e (bulk_session self) (bulk_endpoint self @ ''/job'') (JsonBody (JObj d2)) tr of
                   (Inl x, tr1) \<Rightarrow> (Inl x, tr1)
                 | (Inr resp, tr1) \<Rightarrow>
                     (case check_status resp of
                        Inl x \<Rightarrow> (Inl x, tr1)
                      | Inr _ \<Rightarrow>
                          (case response_json resp of
                             Inl x \<Rightarrow> (Inl x, tr1)
                           | Inr v \<Rightarrow>
                               (case py_getitem v ''id'' of
                                  Inl x \<Rightarrow> (Inl x, tr1)
                                | Inr jid \<Rightarrow>
                                    (Inr (Job_init e (bulk_session self) (bulk_endpoint self) jid), tr1)))))))"

section \<open>The chunks of Job.post, in the spec's words\<close>

text \<open>
  The spec describes Job.post by its chunks: chunk \<open>i\<close> of the rows, for a batch
  size \<open>b\<close>, holds the rows at the indices from \<open>i * b\<close> up to, and not including,
  \<open>min ((i + 1) * b) n\<close>. \<open>batch_post j rows\<close> is the batch-creation request of job
  \<open>j\<close> for these rows. The source's loop is compared with them below.
\<close>

definition chunk_rows :: "json list \<Rightarrow> nat \<Rightarrow> nat \<Rightarrow> json list" where
  "chunk_rows data b i = map ((!) data) [i * b ..< min ((i + 1) * b) (length data)]"

definition batch_post :: "job \<Rightarrow> json list \<Rightarrow> event" where
  "batch_post j rows = Post (headers (job_session j)) (job_endpoint j @ ''/batch'') (JsonBody (JArr rows))"

section \<open>Concrete inputs\<close>

text \<open>
  The servers, batches and jobs on which the theorems below are run. \<open>ok_json v\<close> is
  a reply with status 200 whose body parses to \<open>v\<close>; \<open>example_env f\<close> is an
  environment whose network is \<open>f\<close>, with the state names of the spec's scenarios.
\<close>

definition ok_json :: "json \<Rightarrow> response" where
  "ok_json v = \<lparr>status_code = 200, response_text = [], json_body = Some v, xml_body = None\<rparr>"

definition example_fmt :: "json \<Rightarrow> string" where
  "example_fmt v = (case v of JStr s \<Rightarrow> s | _ \<Rightarrow> ''?'')"

definition example_env :: "(event list \<Rightarrow> event \<Rightarrow> exn + response) \<Rightarrow> env" where
  "example_env f =
     \<lparr>srv = f, COMPLETED = ''Completed'', ERROR_STATES = [''Failed'', ''Aborted''],
      fmt = example_fmt,
      hostname = (\<lambda>u. Some (takeWhile (\<lambda>c. c \<noteq> CHR ''/'') (drop 8 u))), new_session = \<lparr>headers = []\<rparr>\<rparr>"

definition failed_snapshot :: "(string \<times> json) list" where
  "failed_snapshot = [(''state'', JStr ''Failed''), (''jobId'', JStr ''J1''), (''id'', JStr ''B1''),
     (''stateMessage'', JStr ''bad row'')]"

definition example_batch :: batch where
  "example_batch = Batch_init (example_env (\<lambda>tr req. Inl ConnectionError)) \<lparr>headers = []\<rparr> ''J1'' (JStr ''B1'')"

definition not_found :: response where
  "not_found = \<lparr>status_code = 404, response_text = ''Not Found'', json_body = None, xml_body = None\<rparr>"

definition example_srv :: "event list \<Rightarrow> event \<Rightarrow> exn + response" where
  "example_srv tr req =
     (case req of
        Get hs uri \<Rightarrow>
          if uri = ''J1/batch/B1'' then Inr (ok_json (JObj [(''state'', JStr ''Completed'')]))
          else if uri = ''J1/batch/B2'' then Inr (ok_json (JObj [(''state'', JStr ''Queued'')]))
          else if uri = ''J1/batch/B3'' then Inr (ok_json (JObj [(''state'', JStr ''Completed'')]))
          else if uri = ''J1/batch/B1/result'' then Inr (ok_json (JArr [JNum 1, JNum 2]))
          else if uri = ''J1/batch/B3/result'' then Inr (ok_json (JArr [JStr ''R1'', JStr ''R2'']))
          else if uri = ''J1/batch/B3/result/R1'' then Inr (ok_json (JArr [JNum 3]))
          else if uri = ''J1/batch/B3/result/R2'' then Inr (ok_json (JArr [JNum 4, JNum 5]))
          else Inr not_found
      | Post hs uri b \<Rightarrow> Inr (ok_json (JObj [(''id'', JStr (replicate (Suc (length tr)) CHR ''b''))]))
      | Sleep n \<Rightarrow> Inl ConnectionError)"

definition example_job :: "batch list \<Rightarrow> job" where
  "example_job bs = \<lparr>job_session = \<lparr>headers = []\<rparr>, job_endpoint = ''J1'', job_id = JStr ''J1'', batches = bs\<rparr>"

definition batch_B :: "string \<Rightarrow> json \<Rightarrow> batch" where
  "batch_B name cache = (Batch_init (example_env example_srv) \<lparr>headers = []\<rparr> ''J1'' (JStr name))\<lparr>p_status := cache\<rparr>"

definition example_batches :: "batch list" where
  "example_batches =
     [batch_B ''B1'' (JObj [(''state'', JStr ''Completed'')]), batch_B ''B2'' JNull, batch_B ''B3'' JNull]"

definition example_batches_polled :: "batch list" where
  "example_batches_polled =
     [batch_B ''B1'' (JObj [(''state'', JStr ''Completed'')]),
      batch_B ''B2'' (JObj [(''state'', JStr ''Queued'')]), batch_B ''B3'' JNull]"

definition example_rows :: "json list" where
  "example_rows = [JNum 1, JNum 2, JNum 3, JNum 4, JNum 5]"

definition login_reply :: response where
  "login_reply =
     \<lparr>status_code = 200, response_text = [], json_body = None,
      xml_body = Some [(SERVER_URL, Some ''https://na1.salesforce.com/services/Soap/u/36.0''),
                       (SESSION_ID, Some ''SID-OF-LOGIN'')]\<rparr>"

definition raising_block :: "job \<times> event list \<Rightarrow> (exn + unit) \<times> job \<times> event list" where
  "raising_block s = (Inl (RuntimeError ''boom''), fst s, snd s)"

definition example_result_batches :: "batch list" where
  "example_result_batches =
     [batch_B ''B1'' (JObj [(''state'', JStr ''Completed'')]),
      (batch_B ''B3'' (JObj [(''state'', JStr ''Completed'')]))\<lparr>is_query := True\<rparr>]"

definition slow_srv :: "event list \<Rightarrow> event \<Rightarrow> exn + response" where
  "slow_srv tr req =
     (case req of
        Get hs uri \<Rightarrow>
          if uri = ''J1/batch/B1'' \<or> uri = ''J1/batch/B3''
          then Inr (ok_json (JObj [(''state'', JStr (if Sleep 10 \<in> set tr then ''Completed'' else ''Queued''))]))
          else example_srv tr req
      | _ \<Rightarrow> example_srv tr req)"

definition example_fresh_batches :: "batch list" where
  "example_fresh_batches = [batch_B ''B1'' JNull, (batch_B ''B3'' JNull)\<lparr>is_query := True\<rparr>]"

definition server_error :: response where
  "server_error = \<lparr>status_code = 500, response_text = ''Internal Server Error'', json_body = None, xml_body = None\<rparr>"

definition failing_srv :: "event list \<Rightarrow> event \<Rightarrow> exn + response" where
  "failing_srv tr req = Inr server_error"

definition down_srv :: "event list \<Rightarrow> event \<Rightarrow> exn + response" where
  "down_srv tr req = Inl ConnectionError"

section \<open>The status check\<close>

lemma check_status_ok: "status_code r < 400 \<Longrightarrow> check_status r = Inr ()"
  by (simp add: check_status_def)

lemma check_status_error: "400 \<le> status_code r \<Longrightarrow> check_status r = Inl (AttributeError ''status'')"
  by (simp add: check_status_def response_getattr_def)

lemma check_status_Inr_iff: "check_status r = Inr u \<longleftrightarrow> status_code r < 400"
  by (auto simp: check_status_def response_getattr_def)

text \<open>
  C1. The claim: a response whose status code is at least 400 makes check_status
  raise a Bulk-API error that carries the body text and the status code, and a
  response below 400 returns normally. The code builds the message and then reads
  \<open>response.status\<close>, an attribute a response does not have: on a 404 reply with
  the body "Not Found" the exception that leaves check_status is an AttributeError
  and no BulkApiError is ever constructed.
\<close>

theorem check_status_404_raises_AttributeError:
  "check_status \<lparr>status_code = 404, response_text = ''Not Found'', json_body = None, xml_body = None\<rparr>
     = Inl (AttributeError ''status'')"
  by (simp add: check_status_def response_getattr_def)

section \<open>Batch.status and Batch.is_done\<close>

lemma Batch_status_cached:
  "\<not> reload \<Longrightarrow> p_status b \<noteq> JNull \<Longrightarrow> Batch_status e reload (b, tr) = (Inr (p_status b), b, tr)"
  by (simp add: Batch_status_def)

lemma Batch_status_fetch:
  "reload \<or> p_status b = JNull \<Longrightarrow>
   Batch_status e reload (b, tr) =
     (case srv e tr (Get (headers (session b)) (endpoint b)) of
        Inl x \<Rightarrow> (Inl x, b, tr @ [Get (headers (session b)) (endpoint b)])
      | Inr resp \<Rightarrow>
          if status_code resp < 400 then
            (case json_body resp of
               None \<Rightarrow> (Inl ValueError, b, tr @ [Get (headers (session b)) (endpoint b)])
             | Some v \<Rightarrow> (Inr v, b\<lparr>p_status := v\<rparr>, tr @ [Get (headers (session b)) (endpoint b)]))
          else (Inl (AttributeError ''status''), b, tr @ [Get (headers (session b)) (endpoint b)]))"
  by (auto simp: Batch_status_def session_get_def check_status_ok check_status_error response_json_def
           split: sum.splits option.splits)

lemma Batch_status_Inr_cache:
  "Batch_status e reload (b, tr) = (Inr v, b', tr') \<Longrightarrow> p_status b' = v"
  by (auto simp: Batch_status_def split: if_splits sum.splits prod.splits)

lemma Batch_status_fields:
  "Batch_status e reload (b, tr) = (r, b', tr') \<Longrightarrow>
     session b' = session b \<and> endpoint b' = endpoint b \<and> batch_id b' = batch_id b \<and> is_query b' = is_query b"
  by (auto simp: Batch_status_def split: if_splits sum.splits prod.splits)

lemma Batch_is_done_obj:
  assumes "Batch_status e reload s = (Inr (JObj kvs), b', tr')"
  shows "Batch_is_done e reload s =
     (case map_of kvs ''state'' of
        None \<Rightarrow> (Inr False, b', tr')
      | Some st \<Rightarrow>
          if in_error_states e st then
            (case map_of kvs ''jobId'' of
               None \<Rightarrow> (Inl (KeyError ''jobId''), b', tr')
             | Some jid \<Rightarrow>
                 (case map_of kvs ''id'' of
                    None \<Rightarrow> (Inl (KeyError ''id''), b', tr')
                  | Some bid \<Rightarrow>
                      (case map_of kvs ''stateMessage'' of
                         None \<Rightarrow> (Inl (KeyError ''stateMessage''), b', tr')
                       | Some msg \<Rightarrow> (Inl (BulkBatchFailed jid bid msg), b', tr'))))
          else (Inr (st = JStr (COMPLETED e)), b', tr'))"
  using assms
  by (auto simp: Batch_is_done_def py_contains_def py_getitem_def in_error_states_def
           split: option.splits)

lemma Batch_is_done_trace:
  "Batch_is_done e reload (b, tr) = (r, b', tr') \<Longrightarrow>
     tr' = (if reload \<or> p_status b = JNull then tr @ [Get (headers (session b)) (endpoint b)] else tr)"
  by (auto simp: Batch_is_done_def Batch_status_def session_get_def
           split: if_splits sum.splits prod.splits)

lemma Batch_is_done_fields:
  "Batch_is_done e reload (b, tr) = (r, b', tr') \<Longrightarrow>
     session b' = session b \<and> endpoint b' = endpoint b \<and> batch_id b' = batch_id b \<and> is_query b' = is_query b"
  by (auto simp: Batch_is_done_def Batch_status_def split: if_splits sum.splits prod.splits)

lemma Batch_is_done_stable:
  assumes "Batch_is_done e reload (b, tr) = (Inr d, b', tr')"
  shows "Batch_is_done e False (b', t) = (Inr d, b', t)"
proof -
  obtain v where st: "Batch_status e reload (b, tr) = (Inr v, b', tr')"
    using assms by (auto simp: Batch_is_done_def split: sum.splits prod.splits if_splits)
  have nn: "v \<noteq> JNull"
    using assms st by (auto simp: Batch_is_done_def py_contains_def)
  have c: "p_status b' = v"
    using st by (rule Batch_status_Inr_cache)
  have "Batch_status e False (b', t) = (Inr v, b', t)"
    using nn c by (simp add: Batch_status_cached)
  then show ?thesis
    using assms st by (auto simp: Batch_is_done_def split: sum.splits prod.splits if_splits)
qed

text \<open>
  C3. Let the status snapshot that is_done reads (the cached one, or the one just
  fetched) be a mapping. If its state is one of the error states and it has the
  fields jobId, id and stateMessage, is_done raises BulkBatchFailed with these three
  values, and a later call without reload on the batch as it is now raises the same
  again, whatever happened in between. In an error state is_done never returns a
  boolean. If the state is not an error state (or is absent), is_done returns
  whether the state equals the completed state.
\<close>

theorem Batch_is_done_error_state:
  assumes "Batch_status e reload (b, tr) = (Inr (JObj kvs), b', tr')"
  shows "(map_of kvs ''state'' = Some st \<and> in_error_states e st \<and>
          map_of kvs ''jobId'' = Some jid \<and> map_of kvs ''id'' = Some bid \<and>
          map_of kvs ''stateMessage'' = Some msg \<longrightarrow>
            Batch_is_done e reload (b, tr) = (Inl (BulkBatchFailed jid bid msg), b', tr') \<and>
            Batch_is_done e False (b', tr'') = (Inl (BulkBatchFailed jid bid msg), b', tr''))
       \<and> (map_of kvs ''state'' = Some st \<and> in_error_states e st \<longrightarrow>
            (\<exists>x. Batch_is_done e reload (b, tr) = (Inl x, b', tr')))
       \<and> ((\<forall>s. map_of kvs ''state'' = Some s \<longrightarrow> \<not> in_error_states e s) \<longrightarrow>
            Batch_is_done e reload (b, tr) =
              (Inr (map_of kvs ''state'' = Some (JStr (COMPLETED e))), b', tr'))"
proof -
  have cache: "p_status b' = JObj kvs"
    using assms by (rule Batch_status_Inr_cache)
  then have again: "Batch_status e False (b', tr'') = (Inr (JObj kvs), b', tr'')"
    by (simp add: Batch_status_cached)
  show ?thesis
    by (auto simp: Batch_is_done_obj [OF assms] Batch_is_done_obj [OF again] split: option.splits)
qed

theorem Batch_is_done_error_state_witness:
  "Batch_is_done (example_env (\<lambda>tr req. Inr (ok_json (JObj failed_snapshot)))) False (example_batch, [])
     = (Inl (BulkBatchFailed (JStr ''J1'') (JStr ''B1'') (JStr ''bad row'')),
        example_batch\<lparr>p_status := JObj failed_snapshot\<rparr>, [Get [] ''J1/batch/B1''])
   \<and> Batch_is_done (example_env (\<lambda>tr req. Inr (ok_json (JObj failed_snapshot)))) False
        (example_batch\<lparr>p_status := JObj failed_snapshot\<rparr>, [Get [] ''J1/batch/B1''])
     = (Inl (BulkBatchFailed (JStr ''J1'') (JStr ''B1'') (JStr ''bad row'')),
        example_batch\<lparr>p_status := JObj failed_snapshot\<rparr>, [Get [] ''J1/batch/B1''])
   \<and> Batch_is_done (example_env (\<lambda>tr req. Inr (ok_json (JObj [(''state'', JStr ''Completed'')])))) True (example_batch, [])
     = (Inr True, example_batch\<lparr>p_status := JObj [(''state'', JStr ''Completed'')]\<rparr>, [Get [] ''J1/batch/B1''])
   \<and> Batch_is_done (example_env (\<lambda>tr req. Inr (ok_json (JObj [(''state'', JStr ''Queued'')])))) True (example_batch, [])
     = (Inr False, example_batch\<lparr>p_status := JObj [(''state'', JStr ''Queued'')]\<rparr>, [Get [] ''J1/batch/B1''])"
proof -
  let ?e1 = "example_env (\<lambda>tr req. Inr (ok_json (JObj failed_snapshot)))"
  let ?e2 = "example_env (\<lambda>tr req. Inr (ok_json (JObj [(''state'', JStr ''Completed'')])))"
  let ?e3 = "example_env (\<lambda>tr req. Inr (ok_json (JObj [(''state'', JStr ''Queued'')])))"
  have s1: "Batch_status ?e1 False (example_batch, [])
      = (Inr (JObj failed_snapshot), example_batch\<lparr>p_status := JObj failed_snapshot\<rparr>, [Get [] ''J1/batch/B1''])"
    by (simp add: Batch_status_fetch example_batch_def Batch_init_def example_env_def ok_json_def example_fmt_def)
  have s2: "Batch_status ?e2 True (example_batch, [])
      = (Inr (JObj [(''state'', JStr ''Completed'')]), example_batch\<lparr>p_status := JObj [(''state'', JStr ''Completed'')]\<rparr>, [Get [] ''J1/batch/B1''])"
    by (simp add: Batch_status_fetch example_batch_def Batch_init_def example_env_def ok_json_def example_fmt_def)
  have s3: "Batch_status ?e3 True (example_batch, [])
      = (Inr (JObj [(''state'', JStr ''Queued'')]), example_batch\<lparr>p_status := JObj [(''state'', JStr ''Queued'')]\<rparr>, [Get [] ''J1/batch/B1''])"
    by (simp add: Batch_status_fetch example_batch_def Batch_init_def example_env_def ok_json_def example_fmt_def)
  show ?thesis
    using Batch_is_done_error_state [OF s1, of "JStr ''Failed''" "JStr ''J1''" "JStr ''B1''" "JStr ''bad row''" "[Get [] ''J1/batch/B1'']"]
          Batch_is_done_error_state [OF s2, of JNull JNull JNull JNull "[]"]
          Batch_is_done_error_state [OF s3, of JNull JNull JNull JNull "[]"]
    by (simp add: failed_snapshot_def in_error_states_def example_env_def)
qed

text \<open>
  C10. A snapshot that is a mapping without the key 'state': is_done raises nothing
  and returns False.
\<close>

theorem Batch_is_done_state_absent:
  assumes "Batch_status e reload (b, tr) = (Inr (JObj kvs), b', tr')"
      and "map_of kvs ''state'' = None"
  shows "Batch_is_done e reload (b, tr) = (Inr False, b', tr')"
  using assms(2) by (simp add: Batch_is_done_obj [OF assms(1)])

theorem Batch_is_done_state_absent_witness:
  "Batch_is_done (example_env (\<lambda>tr req. Inr (ok_json (JObj [(''id'', JStr ''B1'')])))) False (example_batch, [])
     = (Inr False, example_batch\<lparr>p_status := JObj [(''id'', JStr ''B1'')]\<rparr>, [Get [] ''J1/batch/B1''])"
proof -
  let ?e = "example_env (\<lambda>tr req. Inr (ok_json (JObj [(''id'', JStr ''B1'')])))"
  have s: "Batch_status ?e False (example_batch, [])
      = (Inr (JObj [(''id'', JStr ''B1'')]), example_batch\<lparr>p_status := JObj [(''id'', JStr ''B1'')]\<rparr>, [Get [] ''J1/batch/B1''])"
    by (simp add: Batch_status_fetch example_batch_def Batch_init_def example_env_def ok_json_def example_fmt_def)
  have k: "map_of [(''id'', JStr ''B1'')] ''state'' = None"
    by simp
  show ?thesis
    by (rule Batch_is_done_state_absent [OF s k])
qed

text \<open>
  C7. With a snapshot in the cache (the cache is not None), status without reload
  returns it and changes neither the batch nor the trace: no request is made. After
  a call of status that returned a snapshot \<open>v\<close>, a call without reload returns \<open>v\<close>
  again, with no request, whatever happened in between. A call makes a request
  exactly when reload is true or the cache is None; the request is then one GET on
  the endpoint of the batch, and the call returns a value only if the reply passed
  check_status, in which case the value is the parsed reply and the cache holds it.
  (A reply whose body is the JSON null parses to None: the cache is then as empty
  as before.)
\<close>

theorem Batch_status_cache:
  "(p_status b \<noteq> JNull \<longrightarrow> Batch_status e False (b, tr) = (Inr (p_status b), b, tr))
   \<and> (Batch_status e reload (b, tr) = (Inr v, b1, tr1) \<and> v \<noteq> JNull \<longrightarrow>
        Batch_status e False (b1, tr2) = (Inr v, b1, tr2))
   \<and> (Batch_status e reload (b, tr) = (r, b1, tr1) \<longrightarrow>
        (if reload \<or> p_status b = JNull
         then tr1 = tr @ [Get (headers (session b)) (endpoint b)] \<and>
              (\<forall>w. r = Inr w \<longrightarrow>
                 (\<exists>resp. srv e tr (Get (headers (session b)) (endpoint b)) = Inr resp \<and>
                    check_status resp = Inr () \<and> response_json resp = Inr w) \<and>
                 b1 = b\<lparr>p_status := w\<rparr>) \<and>
              ((\<exists>x. r = Inl x) \<longrightarrow> b1 = b)
         else tr1 = tr \<and> b1 = b \<and> r = Inr (p_status b)))"
proof (intro conjI impI)
  assume "p_status b \<noteq> JNull"
  then show "Batch_status e False (b, tr) = (Inr (p_status b), b, tr)"
    by (simp add: Batch_status_cached)
next
  assume a: "Batch_status e reload (b, tr) = (Inr v, b1, tr1) \<and> v \<noteq> JNull"
  then have "p_status b1 = v"
    using Batch_status_Inr_cache by blast
  with a show "Batch_status e False (b1, tr2) = (Inr v, b1, tr2)"
    by (simp add: Batch_status_cached)
next
  assume "Batch_status e reload (b, tr) = (r, b1, tr1)"
  then show "if reload \<or> p_status b = JNull
         then tr1 = tr @ [Get (headers (session b)) (endpoint b)] \<and>
              (\<forall>w. r = Inr w \<longrightarrow>
                 (\<exists>resp. srv e tr (Get (headers (session b)) (endpoint b)) = Inr resp \<and>
                    check_status resp = Inr () \<and> response_json resp = Inr w) \<and>
                 b1 = b\<lparr>p_status := w\<rparr>) \<and>
              ((\<exists>x. r = Inl x) \<longrightarrow> b1 = b)
         else tr1 = tr \<and> b1 = b \<and> r = Inr (p_status b)"
    by (auto simp: Batch_status_def session_get_def split: if_splits sum.splits)
qed

theorem Batch_status_cache_witness:
  "Batch_status (example_env (\<lambda>tr req. Inr (ok_json (JObj [(''state'', JStr ''Queued'')])))) False (example_batch, [])
     = (Inr (JObj [(''state'', JStr ''Queued'')]),
        example_batch\<lparr>p_status := JObj [(''state'', JStr ''Queued'')]\<rparr>, [Get [] ''J1/batch/B1''])
   \<and> Batch_status (example_env (\<lambda>tr req. Inr (ok_json (JObj [(''state'', JStr ''Queued'')])))) False
        (example_batch\<lparr>p_status := JObj [(''state'', JStr ''Queued'')]\<rparr>, [Get [] ''J1/batch/B1''])
     = (Inr (JObj [(''state'', JStr ''Queued'')]),
        example_batch\<lparr>p_status := JObj [(''state'', JStr ''Queued'')]\<rparr>, [Get [] ''J1/batch/B1''])"
proof -
  let ?e = "example_env (\<lambda>tr req. Inr (ok_json (JObj [(''state'', JStr ''Queued'')])))"
  let ?v = "JObj [(''state'', JStr ''Queued'')]"
  let ?b1 = "example_batch\<lparr>p_status := ?v\<rparr>"
  let ?t = "[Get [] ''J1/batch/B1'']"
  have s: "Batch_status ?e False (example_batch, []) = (Inr ?v, ?b1, ?t)"
    by (simp add: Batch_status_fetch example_batch_def Batch_init_def example_env_def ok_json_def example_fmt_def)
  have n: "?v \<noteq> JNull"
    by simp
  from Batch_status_cache [where b = example_batch and e = ?e and tr = "[]" and reload = False
         and v = ?v and ?b1.0 = ?b1 and ?tr1.0 = ?t and ?tr2.0 = ?t and r = "Inr ?v"]
  have "Batch_status ?e False (example_batch, []) = (Inr ?v, ?b1, ?t) \<and> ?v \<noteq> JNull \<longrightarrow>
        Batch_status ?e False (?b1, ?t) = (Inr ?v, ?b1, ?t)"
    by (elim conjE)
  with s n show ?thesis
    by blast
qed

section \<open>Batch.wait\<close>

lemma Batch_is_done_reload_fst:
  "session b0 = session b \<Longrightarrow> endpoint b0 = endpoint b \<Longrightarrow>
     fst (Batch_is_done e True (b0, h)) = fst (Batch_is_done e True (b, h))"
  by (simp add: Batch_is_done_def Batch_status_def session_get_def
           split: sum.splits prod.splits)

lemma wait_loop_run:
  assumes "0 < p"
  shows "\<exists>k r b'.
      wait_loop e timeout p waited (b, tr)
        = Some (r, b', tr @ concat (replicate k [Get (headers (session b)) (endpoint b), Sleep p])
                        @ [Get (headers (session b)) (endpoint b)]) \<and>
      (0 < k \<longrightarrow> waited + int (k - 1) * p < timeout) \<and>
      (\<forall>i<k. fst (Batch_is_done e True
                  (b, tr @ concat (replicate i [Get (headers (session b)) (endpoint b), Sleep p]))) = Inr False) \<and>
      (case fst (Batch_is_done e True
                  (b, tr @ concat (replicate k [Get (headers (session b)) (endpoint b), Sleep p]))) of
         Inl x \<Rightarrow> r = Inl x
       | Inr d \<Rightarrow> r = Inr () \<and> (d \<or> timeout \<le> waited + int k * p))"
proof (induction "nat (timeout - waited)" arbitrary: waited b tr rule: less_induct)
  case less
  let ?G = "Get (headers (session b)) (endpoint b)"
  obtain r0 b0 tr0 where poll: "Batch_is_done e True (b, tr) = (r0, b0, tr0)"
    by (cases "Batch_is_done e True (b, tr)") auto
  have tr0: "tr0 = tr @ [?G]"
    using Batch_is_done_trace [OF poll] by simp
  have same: "session b0 = session b" "endpoint b0 = endpoint b"
    using Batch_is_done_fields [OF poll] by simp_all
  show ?case
  proof (cases "r0 = Inr False \<and> waited < timeout")
    case False
    then have stop: "wait_loop e timeout p waited (b, tr)
        = Some (case r0 of Inl x \<Rightarrow> Inl x | Inr d \<Rightarrow> Inr (), b0, tr @ [?G])"
      using poll tr0 by (subst wait_loop.simps) (auto split: sum.splits)
    have "case r0 of Inl x \<Rightarrow> (case r0 of Inl x \<Rightarrow> Inl x | Inr d \<Rightarrow> Inr ()) = Inl x
       | Inr d \<Rightarrow> (case r0 of Inl x \<Rightarrow> Inl x | Inr d \<Rightarrow> Inr ()) = Inr () \<and> (d \<or> timeout \<le> waited + int 0 * p)"
      using False by (cases r0) auto
    with stop poll show ?thesis
      by (intro exI [of _ 0] exI [of _ "case r0 of Inl x \<Rightarrow> Inl x | Inr d \<Rightarrow> Inr ()"] exI [of _ b0]) simp
  next
    case True
    then have r0: "r0 = Inr False" and lt: "waited < timeout"
      by simp_all
    have step: "wait_loop e timeout p waited (b, tr)
        = wait_loop e timeout p (waited + p) (b0, tr @ [?G, Sleep p])"
      using poll tr0 r0 lt assms by (subst wait_loop.simps) (simp add: time_sleep_def)
    have "nat (timeout - (waited + p)) < nat (timeout - waited)"
      using lt assms by simp
    from less [OF this, of b0 "tr @ [?G, Sleep p]"] same
    obtain k r b' where ih:
      "wait_loop e timeout p (waited + p) (b0, tr @ [?G, Sleep p])
         = Some (r, b', (tr @ [?G, Sleep p]) @ concat (replicate k [?G, Sleep p]) @ [?G])"
      "0 < k \<longrightarrow> waited + p + int (k - 1) * p < timeout"
      "\<forall>i<k. fst (Batch_is_done e True (b0, (tr @ [?G, Sleep p]) @ concat (replicate i [?G, Sleep p]))) = Inr False"
      "case fst (Batch_is_done e True (b0, (tr @ [?G, Sleep p]) @ concat (replicate k [?G, Sleep p]))) of
         Inl x \<Rightarrow> r = Inl x
       | Inr d \<Rightarrow> r = Inr () \<and> (d \<or> timeout \<le> waited + p + int k * p)"
      by auto
    have sw: "fst (Batch_is_done e True (b0, h)) = fst (Batch_is_done e True (b, h))" for h
      using same by (rule Batch_is_done_reload_fst)
    have shift: "(tr @ [?G, Sleep p]) @ concat (replicate i [?G, Sleep p])
        = tr @ concat (replicate (Suc i) [?G, Sleep p])" for i
      by simp
    have a: "wait_loop e timeout p waited (b, tr)
        = Some (r, b', tr @ concat (replicate (Suc k) [?G, Sleep p]) @ [?G])"
      using step ih(1) by simp
    have b: "0 < Suc k \<longrightarrow> waited + int (Suc k - 1) * p < timeout"
    proof (cases k)
      case 0
      then show ?thesis using lt by simp
    next
      case (Suc m)
      then show ?thesis using ih(2) by (simp add: algebra_simps)
    qed
    have c: "\<forall>i<Suc k. fst (Batch_is_done e True (b, tr @ concat (replicate i [?G, Sleep p]))) = Inr False"
    proof (intro allI impI)
      fix i assume i: "i < Suc k"
      show "fst (Batch_is_done e True (b, tr @ concat (replicate i [?G, Sleep p]))) = Inr False"
      proof (cases i)
        case 0
        then show ?thesis using poll r0 by simp
      next
        case (Suc m)
        then have "m < k" using i by simp
        with ih(3) have "fst (Batch_is_done e True (b0, (tr @ [?G, Sleep p]) @ concat (replicate m [?G, Sleep p]))) = Inr False"
          by blast
        then show ?thesis
          unfolding sw shift Suc .
      qed
    qed
    have d: "case fst (Batch_is_done e True (b, tr @ concat (replicate (Suc k) [?G, Sleep p]))) of
         Inl x \<Rightarrow> r = Inl x
       | Inr d \<Rightarrow> r = Inr () \<and> (d \<or> timeout \<le> waited + int (Suc k) * p)"
      using ih(4) unfolding sw shift by (simp add: algebra_simps split: sum.splits)
    show ?thesis
      using a b c d by blast
  qed
qed

lemma int_div_less:
  assumes "(0::int) < p" and "a < n * p"
  shows "a div p < n"
proof -
  have "0 \<le> a mod p"
    using assms(1) by simp
  with mult_div_mod_eq [of p a] have "p * (a div p) \<le> a"
    by linarith
  with assms(2) have "(a div p) * p < n * p"
    by (simp add: mult.commute)
  then show ?thesis
    using assms(1) by (simp add: mult_less_cancel_right)
qed

lemma int_div_greater_eq:
  assumes "(0::int) < p" and "n * p \<le> a"
  shows "n \<le> a div p"
proof -
  have "a mod p < p"
    using assms(1) by simp
  with mult_div_mod_eq [of p a] have "a < p * (a div p) + p"
    by linarith
  with assms(2) have "n * p < (a div p + 1) * p"
    by (simp add: algebra_simps)
  then have "n < a div p + 1"
    using assms(1) by (simp add: mult_less_cancel_right)
  then show ?thesis
    by simp
qed

lemma ceil_steps:
  assumes "0 < p" and "0 < k \<longrightarrow> int (k - 1) * p < timeout" and "timeout \<le> int k * p"
  shows "k = nat ((timeout + p - 1) div p)"
proof (cases k)
  case 0
  then have "timeout + p - 1 < 1 * p"
    using assms(3) by simp
  then have "(timeout + p - 1) div p < 1"
    using assms(1) by (rule int_div_less [rotated])
  then show ?thesis
    using 0 by simp
next
  case (Suc m)
  then have lo: "int m * p < timeout" and hi: "timeout \<le> (int m + 1) * p"
    using assms(2,3) by (simp_all add: algebra_simps)
  have "(int m + 1) * p \<le> timeout + p - 1"
    using lo by (simp add: algebra_simps)
  then have l: "int m + 1 \<le> (timeout + p - 1) div p"
    using assms(1) by (rule int_div_greater_eq [rotated])
  have "timeout + p - 1 < (int m + 2) * p"
    using hi by (simp add: algebra_simps)
  then have u: "(timeout + p - 1) div p < int m + 2"
    using assms(1) by (rule int_div_less [rotated])
  from l u have "(timeout + p - 1) div p = int m + 1"
    by simp
  then show ?thesis
    using Suc by simp
qed

text \<open>
  C4. With a sleep interval above 0, Batch.wait returns, and what it did is: a poll
  (is_done with reload, one GET on the endpoint of the batch), then \<open>k\<close> times a
  sleep of the interval followed by a poll. Every poll but the last returned
  False, and every sleep was begun with less than \<open>timeout\<close> slept so far. The last
  poll either raised, and wait raises the same; or it returned True; or it
  returned False with \<open>k\<close> intervals slept, which is at least \<open>timeout\<close>; in the last
  two cases wait returns normally. Against a batch whose polls always return False,
  wait returns normally after \<open>timeout / interval\<close>, rounded up, sleeps: with a
  timeout of 30 and an interval of 10 these are 3 sleeps and 3 polls after the
  first one.
\<close>

theorem Batch_wait_polls:
  assumes "0 < sleep_interval"
  shows "\<exists>k r b'.
      Batch_wait e timeout sleep_interval (b, tr)
        = Some (r, b', tr @ concat (replicate k [Get (headers (session b)) (endpoint b), Sleep sleep_interval])
                        @ [Get (headers (session b)) (endpoint b)]) \<and>
      (0 < k \<longrightarrow> int (k - 1) * sleep_interval < timeout) \<and>
      (\<forall>i<k. fst (Batch_is_done e True
                  (b, tr @ concat (replicate i [Get (headers (session b)) (endpoint b), Sleep sleep_interval])))
               = Inr False) \<and>
      (case fst (Batch_is_done e True
                  (b, tr @ concat (replicate k [Get (headers (session b)) (endpoint b), Sleep sleep_interval]))) of
         Inl x \<Rightarrow> r = Inl x
       | Inr d \<Rightarrow> r = Inr () \<and> (d \<or> timeout \<le> int k * sleep_interval)) \<and>
      ((\<forall>h. fst (Batch_is_done e True (b, h)) = Inr False) \<longrightarrow>
         r = Inr () \<and> k = nat ((timeout + sleep_interval - 1) div sleep_interval))"
proof -
  let ?G = "Get (headers (session b)) (endpoint b)"
  from wait_loop_run [OF assms, of e timeout 0 b tr] obtain k r b' where h0:
    "wait_loop e timeout sleep_interval 0 (b, tr)
        = Some (r, b', tr @ concat (replicate k [?G, Sleep sleep_interval]) @ [?G])"
    "0 < k \<longrightarrow> 0 + int (k - 1) * sleep_interval < timeout"
    "\<forall>i<k. fst (Batch_is_done e True (b, tr @ concat (replicate i [?G, Sleep sleep_interval]))) = Inr False"
    "case fst (Batch_is_done e True (b, tr @ concat (replicate k [?G, Sleep sleep_interval]))) of
         Inl x \<Rightarrow> r = Inl x
       | Inr d \<Rightarrow> r = Inr () \<and> (d \<or> timeout \<le> 0 + int k * sleep_interval)"
    by (elim exE conjE)
  have h:
    "wait_loop e timeout sleep_interval 0 (b, tr)
        = Some (r, b', tr @ concat (replicate k [?G, Sleep sleep_interval]) @ [?G])"
    "0 < k \<longrightarrow> int (k - 1) * sleep_interval < timeout"
    "\<forall>i<k. fst (Batch_is_done e True (b, tr @ concat (replicate i [?G, Sleep sleep_interval]))) = Inr False"
    "case fst (Batch_is_done e True (b, tr @ concat (replicate k [?G, Sleep sleep_interval]))) of
         Inl x \<Rightarrow> r = Inl x
       | Inr d \<Rightarrow> r = Inr () \<and> (d \<or> timeout \<le> int k * sleep_interval)"
    using h0 by (simp_all only: add_0)
  have never: "r = Inr () \<and> k = nat ((timeout + sleep_interval - 1) div sleep_interval)"
    if "\<forall>h. fst (Batch_is_done e True (b, h)) = Inr False"
  proof -
    have "fst (Batch_is_done e True (b, tr @ concat (replicate k [?G, Sleep sleep_interval]))) = Inr False"
      using that by blast
    with h(4) have "r = Inr ()" "timeout \<le> int k * sleep_interval"
      by simp_all
    with ceil_steps [OF assms h(2)] show ?thesis
      by simp
  qed
  show ?thesis
    using h never unfolding Batch_wait_def by blast
qed

lemma queued_poll:
  "fst (Batch_is_done (example_env (\<lambda>tr req. Inr (ok_json (JObj [(''state'', JStr ''Queued'')])))) True
          (example_batch, h)) = Inr False"
proof -
  have "Batch_status (example_env (\<lambda>tr req. Inr (ok_json (JObj [(''state'', JStr ''Queued'')])))) True
          (example_batch, h)
      = (Inr (JObj [(''state'', JStr ''Queued'')]),
         example_batch\<lparr>p_status := JObj [(''state'', JStr ''Queued'')]\<rparr>, h @ [Get [] ''J1/batch/B1''])"
    by (simp add: Batch_status_fetch example_batch_def Batch_init_def example_env_def ok_json_def example_fmt_def)
  then show ?thesis
    by (simp add: Batch_is_done_obj in_error_states_def example_env_def)
qed

theorem Batch_wait_polls_witness:
  "\<exists>b'. Batch_wait (example_env (\<lambda>tr req. Inr (ok_json (JObj [(''state'', JStr ''Queued'')])))) 30 10
            (example_batch, [])
     = Some (Inr (), b',
         [Get [] ''J1/batch/B1'', Sleep 10, Get [] ''J1/batch/B1'', Sleep 10,
          Get [] ''J1/batch/B1'', Sleep 10, Get [] ''J1/batch/B1''])"
proof -
  let ?e = "example_env (\<lambda>tr req. Inr (ok_json (JObj [(''state'', JStr ''Queued'')])))"
  have pos: "(0::int) < 10"
    by simp
  have g: "headers (session example_batch) = []" "endpoint example_batch = ''J1/batch/B1''"
    by (simp_all add: example_batch_def Batch_init_def example_env_def example_fmt_def)
  from Batch_wait_polls [OF pos, of ?e 30 example_batch "[]"] obtain k r b' where h:
    "Batch_wait ?e 30 10 (example_batch, [])
        = Some (r, b', [] @ concat (replicate k [Get [] ''J1/batch/B1'', Sleep 10]) @ [Get [] ''J1/batch/B1''])"
    "(\<forall>h. fst (Batch_is_done ?e True (example_batch, h)) = Inr False) \<longrightarrow>
         r = Inr () \<and> k = nat ((30 + 10 - 1) div 10)"
    unfolding g by blast
  from h(2) queued_poll have "r = Inr ()" "k = 3"
    by simp_all
  with h(1) show ?thesis
    by (simp add: numeral_3_eq_3)
qed

section \<open>Job.is_done\<close>

lemma is_done_loop_length:
  "is_done_loop e bs tr = (r, bs', tr') \<Longrightarrow> length bs' = length bs"
  by (induction bs arbitrary: r bs' tr tr')
     (auto split: sum.splits prod.splits if_splits)

lemma is_done_loop_True:
  "is_done_loop e bs tr = (Inr True, bs', tr') \<Longrightarrow>
     \<forall>b' \<in> set bs'. \<forall>t. Batch_is_done e False (b', t) = (Inr True, b', t)"
proof (induction bs arbitrary: bs' tr tr')
  case Nil
  then show ?case by simp
next
  case (Cons b bs)
  then show ?case
    by (auto split: sum.splits prod.splits if_splits dest: Batch_is_done_stable)
qed

lemma is_done_loop_False:
  "is_done_loop e bs tr = (Inr False, bs', tr') \<Longrightarrow>
     \<exists>k<length bs.
        (\<forall>i<k. \<forall>t. Batch_is_done e False (bs' ! i, t) = (Inr True, bs' ! i, t)) \<and>
        (\<forall>t. Batch_is_done e False (bs' ! k, t) = (Inr False, bs' ! k, t)) \<and>
        drop (Suc k) bs' = drop (Suc k) bs \<and>
        (\<exists>evs. tr' = tr @ evs \<and>
           set evs \<subseteq> (\<lambda>b. Get (headers (session b)) (endpoint b)) ` set (take (Suc k) bs))"
proof (induction bs arbitrary: bs' tr tr')
  case Nil
  then show ?case by simp
next
  case (Cons b bs)
  obtain r1 b1 tr1 where h: "Batch_is_done e False (b, tr) = (r1, b1, tr1)"
    by (cases "Batch_is_done e False (b, tr)") auto
  have t1: "tr1 = (if p_status b = JNull then tr @ [Get (headers (session b)) (endpoint b)] else tr)"
    using Batch_is_done_trace [OF h] by simp
  from Cons.prems h obtain d where r1: "r1 = Inr d"
    by (cases r1) auto
  show ?case
  proof (cases d)
    case False
    with Cons.prems h r1 have eq: "bs' = b1 # bs" "tr' = tr1"
      by auto
    have "Batch_is_done e False (b, tr) = (Inr False, b1, tr1)"
      using h r1 False by simp
    then have nd: "\<forall>t. Batch_is_done e False (b1, t) = (Inr False, b1, t)"
      by (simp add: Batch_is_done_stable)
    have "\<exists>evs. tr' = tr @ evs \<and>
           set evs \<subseteq> (\<lambda>b. Get (headers (session b)) (endpoint b)) ` set (take (Suc 0) (b # bs))"
      using eq t1 by (cases "p_status b = JNull") auto
    with eq nd show ?thesis
      by (intro exI [of _ 0]) simp
  next
    case True
    obtain r2 bs2 tr2 where l: "is_done_loop e bs tr1 = (r2, bs2, tr2)"
      by (cases "is_done_loop e bs tr1") auto
    with Cons.prems h r1 True have eq: "bs' = b1 # bs2" "tr' = tr2" "r2 = Inr False"
      by auto
    from Cons.IH [OF l [unfolded eq(3)]] obtain k evs where k:
      "k < length bs"
      "\<forall>i<k. \<forall>t. Batch_is_done e False (bs2 ! i, t) = (Inr True, bs2 ! i, t)"
      "\<forall>t. Batch_is_done e False (bs2 ! k, t) = (Inr False, bs2 ! k, t)"
      "drop (Suc k) bs2 = drop (Suc k) bs"
      "tr2 = tr1 @ evs"
      "set evs \<subseteq> (\<lambda>b. Get (headers (session b)) (endpoint b)) ` set (take (Suc k) bs)"
      by blast
    have "Batch_is_done e False (b, tr) = (Inr True, b1, tr1)"
      using h r1 True by simp
    then have d1: "\<forall>t. Batch_is_done e False (b1, t) = (Inr True, b1, t)"
      by (simp add: Batch_is_done_stable)
    have pre: "\<forall>i<Suc k. \<forall>t. Batch_is_done e False ((b1 # bs2) ! i, t) = (Inr True, (b1 # bs2) ! i, t)"
      using d1 k(2) by (auto simp: nth_Cons split: nat.splits)
    have ev: "\<exists>evs'. tr2 = tr @ evs' \<and>
           set evs' \<subseteq> (\<lambda>b. Get (headers (session b)) (endpoint b)) ` set (take (Suc (Suc k)) (b # bs))"
    proof (cases "p_status b = JNull")
      case True
      then have "tr2 = tr @ (Get (headers (session b)) (endpoint b) # evs)"
        using t1 k(5) by simp
      moreover have "set (Get (headers (session b)) (endpoint b) # evs)
          \<subseteq> (\<lambda>b. Get (headers (session b)) (endpoint b)) ` set (take (Suc (Suc k)) (b # bs))"
        using k(6) by auto
      ultimately show ?thesis by blast
    next
      case False
      then have "tr2 = tr @ evs"
        using t1 k(5) by simp
      moreover have "set evs
          \<subseteq> (\<lambda>b. Get (headers (session b)) (endpoint b)) ` set (take (Suc (Suc k)) (b # bs))"
        using k(6) by auto
      ultimately show ?thesis by blast
    qed
    show ?thesis
      using k(1) pre k(3) k(4) ev eq
      by (intro exI [of _ "Suc k"]) simp
  qed
qed

lemma is_done_loop_all_done:
  "\<forall>b \<in> set bs. \<forall>t. Batch_is_done e False (b, t) = (Inr True, b, t) \<Longrightarrow>
     is_done_loop e bs tr = (Inr True, bs, tr)"
  by (induction bs arbitrary: tr) auto

text \<open>
  C6. A batch reports done when is_done on it returns True without touching the
  batch or the network. When Job.is_done returns a boolean, the boolean says
  whether every batch of the job, as it is after the call, reports done. When it
  returns False there is a first batch \<open>k\<close> that is not done: the batches before it
  report done, the batches after it are exactly as they were (their caches
  included), and the requests made are GETs on the endpoints of the batches up to
  \<open>k\<close> only. When every batch already reports done, the call returns True and
  changes nothing.
\<close>

theorem Job_is_done_short_circuit:
  assumes "Job_is_done e (j, tr) = (r, j', tr')"
  shows "(\<forall>d. r = Inr d \<longrightarrow>
            d = (\<forall>b' \<in> set (batches j'). \<forall>t. Batch_is_done e False (b', t) = (Inr True, b', t)))
       \<and> (r = Inr False \<longrightarrow>
            (\<exists>k<length (batches j).
               (\<forall>i<k. \<forall>t. Batch_is_done e False (batches j' ! i, t) = (Inr True, batches j' ! i, t)) \<and>
               (\<forall>t. Batch_is_done e False (batches j' ! k, t) = (Inr False, batches j' ! k, t)) \<and>
               drop (Suc k) (batches j') = drop (Suc k) (batches j) \<and>
               (\<exists>evs. tr' = tr @ evs \<and>
                  set evs \<subseteq> (\<lambda>b. Get (headers (session b)) (endpoint b)) ` set (take (Suc k) (batches j)))))
       \<and> ((\<forall>b \<in> set (batches j). \<forall>t. Batch_is_done e False (b, t) = (Inr True, b, t)) \<longrightarrow>
            r = Inr True \<and> j' = j \<and> tr' = tr)
       \<and> length (batches j') = length (batches j)"
proof -
  obtain bs' where l: "is_done_loop e (batches j) tr = (r, bs', tr')" and j': "j' = j\<lparr>batches := bs'\<rparr>"
    using assms by (auto simp: Job_is_done_def split: prod.splits)
  have len: "length bs' = length (batches j)"
    using l by (rule is_done_loop_length)
  have f: "r = Inr False \<Longrightarrow>
     \<exists>k<length (batches j).
        (\<forall>i<k. \<forall>t. Batch_is_done e False (bs' ! i, t) = (Inr True, bs' ! i, t)) \<and>
        (\<forall>t. Batch_is_done e False (bs' ! k, t) = (Inr False, bs' ! k, t)) \<and>
        drop (Suc k) bs' = drop (Suc k) (batches j) \<and>
        (\<exists>evs. tr' = tr @ evs \<and>
           set evs \<subseteq> (\<lambda>b. Get (headers (session b)) (endpoint b)) ` set (take (Suc k) (batches j)))"
    using l is_done_loop_False by blast
  have t: "r = Inr True \<Longrightarrow> \<forall>b' \<in> set bs'. \<forall>t. Batch_is_done e False (b', t) = (Inr True, b', t)"
    using l is_done_loop_True by blast
  have nf: "r = Inr False \<Longrightarrow> \<not> (\<forall>b' \<in> set bs'. \<forall>t. Batch_is_done e False (b', t) = (Inr True, b', t))"
  proof
    assume "r = Inr False" and a: "\<forall>b' \<in> set bs'. \<forall>t. Batch_is_done e False (b', t) = (Inr True, b', t)"
    from f [OF this(1)] obtain k where k: "k < length (batches j)"
      "\<forall>t. Batch_is_done e False (bs' ! k, t) = (Inr False, bs' ! k, t)"
      by blast
    have "bs' ! k \<in> set bs'"
      using k(1) len by simp
    with a k(2) show False
      by fastforce
  qed
  have one: "\<forall>d. r = Inr d \<longrightarrow>
            d = (\<forall>b' \<in> set bs'. \<forall>t. Batch_is_done e False (b', t) = (Inr True, b', t))"
  proof (intro allI impI)
    fix d assume "r = Inr d"
    then show "d = (\<forall>b' \<in> set bs'. \<forall>t. Batch_is_done e False (b', t) = (Inr True, b', t))"
      using t nf by (cases d) auto
  qed
  have three: "(\<forall>b \<in> set (batches j). \<forall>t. Batch_is_done e False (b, t) = (Inr True, b, t)) \<longrightarrow>
            r = Inr True \<and> j' = j \<and> tr' = tr"
  proof
    assume "\<forall>b \<in> set (batches j). \<forall>t. Batch_is_done e False (b, t) = (Inr True, b, t)"
    then have "is_done_loop e (batches j) tr = (Inr True, batches j, tr)"
      by (rule is_done_loop_all_done)
    with l j' show "r = Inr True \<and> j' = j \<and> tr' = tr"
      by simp
  qed
  show ?thesis
    using one f three len by (simp add: j')
qed

lemma batch_B_done [simp]:
  "Batch_is_done (example_env example_srv) False (batch_B n (JObj [(''state'', JStr ''Completed'')]), t)
     = (Inr True, batch_B n (JObj [(''state'', JStr ''Completed'')]), t)"
  by (simp add: Batch_is_done_obj [where kvs = "[(''state'', JStr ''Completed'')]"] Batch_status_cached
        batch_B_def in_error_states_def example_env_def)

lemma batch_B_queued [simp]:
  "Batch_is_done (example_env example_srv) False (batch_B n (JObj [(''state'', JStr ''Queued'')]), t)
     = (Inr False, batch_B n (JObj [(''state'', JStr ''Queued'')]), t)"
  by (simp add: Batch_is_done_obj [where kvs = "[(''state'', JStr ''Queued'')]"] Batch_status_cached
        batch_B_def in_error_states_def example_env_def)

lemma batch_B2_poll:
  "Batch_is_done (example_env example_srv) False (batch_B ''B2'' JNull, t)
     = (Inr False, batch_B ''B2'' (JObj [(''state'', JStr ''Queued'')]), t @ [Get [] ''J1/batch/B2''])"
proof -
  have "Batch_status (example_env example_srv) False (batch_B ''B2'' JNull, t)
     = (Inr (JObj [(''state'', JStr ''Queued'')]), batch_B ''B2'' (JObj [(''state'', JStr ''Queued'')]),
        t @ [Get [] ''J1/batch/B2''])"
    by (simp add: Batch_status_fetch batch_B_def Batch_init_def example_env_def example_srv_def
          ok_json_def example_fmt_def)
  then show ?thesis
    by (simp add: Batch_is_done_obj in_error_states_def example_env_def)
qed

theorem Job_is_done_short_circuit_witness:
  "Job_is_done (example_env example_srv) (example_job example_batches, [])
     = (Inr False, example_job example_batches_polled, [Get [] ''J1/batch/B2''])
   \<and> (\<exists>k<length (batches (example_job example_batches)).
        (\<forall>i<k. \<forall>t. Batch_is_done (example_env example_srv) False (batches (example_job example_batches_polled) ! i, t)
            = (Inr True, batches (example_job example_batches_polled) ! i, t)) \<and>
        (\<forall>t. Batch_is_done (example_env example_srv) False (batches (example_job example_batches_polled) ! k, t)
            = (Inr False, batches (example_job example_batches_polled) ! k, t)) \<and>
        drop (Suc k) (batches (example_job example_batches_polled)) = drop (Suc k) (batches (example_job example_batches)) \<and>
        (\<exists>evs. [Get [] ''J1/batch/B2''] = [] @ evs \<and>
           set evs \<subseteq> (\<lambda>b. Get (headers (session b)) (endpoint b)) `
              set (take (Suc k) (batches (example_job example_batches)))))"
proof -
  have run: "Job_is_done (example_env example_srv) (example_job example_batches, [])
      = (Inr False, example_job example_batches_polled, [Get [] ''J1/batch/B2''])"
    by (simp add: Job_is_done_def example_job_def example_batches_def example_batches_polled_def batch_B2_poll)
  from Job_is_done_short_circuit [OF run] show ?thesis
    using run by blast
qed

section \<open>Job.results and BatchQuery.results\<close>

lemma results_each_run:
  "results_each e bs tr = Some ((rows, None), bs', tr') \<Longrightarrow>
     \<exists>rss trs. length rss = length bs \<and> length trs = Suc (length bs) \<and> length bs' = length bs \<and>
       trs ! 0 = tr \<and> trs ! length bs = tr' \<and> rows = concat rss \<and>
       (\<forall>i<length bs. results_of e (bs ! i, trs ! i) = Some ((rss ! i, None), bs' ! i, trs ! Suc i))"
proof (induction bs arbitrary: tr rows bs')
  case Nil
  then show ?case
    by (intro exI [of _ "[]"] exI [of _ "[tr]"]) auto
next
  case (Cons b bs)
  from Cons.prems obtain r1 b1 tr1 r2 bs1 where
    one: "results_of e (b, tr) = Some ((r1, None), b1, tr1)" and
    rest: "results_each e bs tr1 = Some ((r2, None), bs1, tr')" and
    eq: "rows = r1 @ r2" "bs' = b1 # bs1"
    by (auto split: option.splits prod.splits)
  from Cons.IH [OF rest] obtain rss trs where ih:
    "length rss = length bs" "length trs = Suc (length bs)" "length bs1 = length bs"
    "trs ! 0 = tr1" "trs ! length bs = tr'" "r2 = concat rss"
    "\<forall>i<length bs. results_of e (bs ! i, trs ! i) = Some ((rss ! i, None), bs1 ! i, trs ! Suc i)"
    by blast
  have each: "\<forall>i<length (b # bs).
      results_of e ((b # bs) ! i, (tr # trs) ! i) = Some (((r1 # rss) ! i, None), (b1 # bs1) ! i, (tr # trs) ! Suc i)"
  proof (intro allI impI)
    fix i assume "i < length (b # bs)"
    then show "results_of e ((b # bs) ! i, (tr # trs) ! i)
        = Some (((r1 # rss) ! i, None), (b1 # bs1) ! i, (tr # trs) ! Suc i)"
      using one ih(4) ih(7) by (cases i) auto
  qed
  show ?case
    apply (intro exI [of _ "r1 # rss"] exI [of _ "tr # trs"])
    using ih(1-3) ih(5,6) eq each by simp
qed

lemma result_chunks_run:
  "result_chunks e b ids tr = ((rows, None), tr') \<Longrightarrow>
     tr' = tr @ map (\<lambda>rid. Get (headers (session b)) (endpoint b @ ''/result/'' @ fmt e rid)) ids \<and>
     (\<exists>chunks. length chunks = length ids \<and> rows = concat chunks \<and>
        (\<forall>i<length ids. \<exists>resp v.
            srv e (tr @ map (\<lambda>rid. Get (headers (session b)) (endpoint b @ ''/result/'' @ fmt e rid)) (take i ids))
               (Get (headers (session b)) (endpoint b @ ''/result/'' @ fmt e (ids ! i))) = Inr resp \<and>
            status_code resp < 400 \<and> json_body resp = Some v \<and> py_iter v = Inr (chunks ! i)))"
proof (induction ids arbitrary: tr rows)
  case Nil
  then show ?case by simp
next
  case (Cons rid ids)
  let ?G = "\<lambda>rid. Get (headers (session b)) (endpoint b @ ''/result/'' @ fmt e rid)"
  from Cons.prems obtain resp v r1 r2 where
    ok: "srv e tr (?G rid) = Inr resp" "status_code resp < 400" "json_body resp = Some v" "py_iter v = Inr r1" and
    rest: "result_chunks e b ids (tr @ [?G rid]) = ((r2, None), tr')" and
    eq: "rows = r1 @ r2"
    by (auto simp: session_get_def response_json_def check_status_Inr_iff
             split: sum.splits option.splits prod.splits)
  from Cons.IH [OF rest] obtain chunks where ih:
    "tr' = (tr @ [?G rid]) @ map ?G ids"
    "length chunks = length ids" "r2 = concat chunks"
    "\<forall>i<length ids. \<exists>resp v.
        srv e ((tr @ [?G rid]) @ map ?G (take i ids)) (?G (ids ! i)) = Inr resp \<and>
        status_code resp < 400 \<and> json_body resp = Some v \<and> py_iter v = Inr (chunks ! i)"
    by blast
  have each: "\<forall>i<length (rid # ids). \<exists>resp v.
        srv e (tr @ map ?G (take i (rid # ids))) (?G ((rid # ids) ! i)) = Inr resp \<and>
        status_code resp < 400 \<and> json_body resp = Some v \<and> py_iter v = Inr ((r1 # chunks) ! i)"
  proof (intro allI impI)
    fix i assume i: "i < length (rid # ids)"
    show "\<exists>resp v.
        srv e (tr @ map ?G (take i (rid # ids))) (?G ((rid # ids) ! i)) = Inr resp \<and>
        status_code resp < 400 \<and> json_body resp = Some v \<and> py_iter v = Inr ((r1 # chunks) ! i)"
    proof (cases i)
      case 0
      then show ?thesis using ok by simp
    next
      case (Suc m)
      then have "m < length ids" using i by simp
      with ih(4) Suc show ?thesis by simp
    qed
  qed
  have "tr' = tr @ map ?G (rid # ids)"
    using ih(1) by simp
  moreover have "\<exists>chunks'. length chunks' = length (rid # ids) \<and> rows = concat chunks' \<and>
        (\<forall>i<length (rid # ids). \<exists>resp v.
            srv e (tr @ map ?G (take i (rid # ids))) (?G ((rid # ids) ! i)) = Inr resp \<and>
            status_code resp < 400 \<and> json_body resp = Some v \<and> py_iter v = Inr (chunks' ! i))"
    using ih(2,3) eq each by (intro exI [of _ "r1 # chunks"]) simp
  ultimately show ?case
    by blast
qed

lemma wait_loop_fields:
  assumes "0 < p"
  shows "wait_loop e timeout p waited (b, tr) = Some (r, b', tr') \<Longrightarrow>
           session b' = session b \<and> endpoint b' = endpoint b"
proof (induction "nat (timeout - waited)" arbitrary: waited b tr rule: less_induct)
  case less
  obtain r0 b0 tr0 where poll: "Batch_is_done e True (b, tr) = (r0, b0, tr0)"
    by (cases "Batch_is_done e True (b, tr)") auto
  have same: "session b0 = session b" "endpoint b0 = endpoint b"
    using Batch_is_done_fields [OF poll] by simp_all
  show ?case
  proof (cases "r0 = Inr False \<and> waited < timeout")
    case False
    then have "wait_loop e timeout p waited (b, tr)
        = Some (case r0 of Inl x \<Rightarrow> Inl x | Inr d \<Rightarrow> Inr (), b0, tr0)"
      using poll by (subst wait_loop.simps) (auto split: sum.splits)
    with less.prems same show ?thesis
      by simp
  next
    case True
    then have "wait_loop e timeout p waited (b, tr)
        = wait_loop e timeout p (waited + p) (b0, tr0 @ [Sleep p])"
      using poll assms by (subst wait_loop.simps) (simp add: time_sleep_def)
    with less.prems have rec: "wait_loop e timeout p (waited + p) (b0, tr0 @ [Sleep p]) = Some (r, b', tr')"
      by simp
    have "nat (timeout - (waited + p)) < nat (timeout - waited)"
      using True assms by simp
    from less.hyps [OF this rec] same show ?thesis
      by simp
  qed
qed

lemma Job_results_run:
  assumes "Job_results e (j, tr) = Some ((rows, None), j', tr')"
  shows "\<exists>d j0 tr0 j1 tr1 rss trs.
      Job_is_done e (j, tr) = (Inr d, j0, tr0) \<and>
      (if d then j1 = j0 \<and> tr1 = tr0 else Job_wait e 600 10 (j0, tr0) = Some (Inr (), j1, tr1)) \<and>
      length rss = length (batches j1) \<and> length trs = Suc (length (batches j1)) \<and>
      length (batches j') = length (batches j1) \<and>
      trs ! 0 = tr1 \<and> trs ! length (batches j1) = tr' \<and> rows = concat rss \<and>
      (\<forall>i<length (batches j1).
          results_of e (batches j1 ! i, trs ! i) = Some ((rss ! i, None), batches j' ! i, trs ! Suc i))"
proof -
  obtain r0 j0 tr0 where poll: "Job_is_done e (j, tr) = (r0, j0, tr0)"
    by (cases "Job_is_done e (j, tr)") auto
  from assms poll obtain d where r0: "r0 = Inr d"
    by (cases r0) (auto simp: Job_results_def)
  have "\<exists>j1 tr1. (if d then j1 = j0 \<and> tr1 = tr0 else Job_wait e 600 10 (j0, tr0) = Some (Inr (), j1, tr1)) \<and>
          Job_results e (j, tr) =
            (case results_each e (batches j1) tr1 of
               None \<Rightarrow> None
             | Some (y, bs, tr2) \<Rightarrow> Some (y, j1\<lparr>batches := bs\<rparr>, tr2))"
  proof (cases d)
    case True
    have C: "Job_results e (j, tr) =
            (case results_each e (batches j0) tr0 of
               None \<Rightarrow> None
             | Some (y, bs, tr2) \<Rightarrow> Some (y, j0\<lparr>batches := bs\<rparr>, tr2))"
      using poll r0 True by (simp add: Job_results_def)
    have A: "if d then j0 = j0 \<and> tr0 = tr0 else Job_wait e 600 10 (j0, tr0) = Some (Inr (), j0, tr0)"
      using True by simp
    show ?thesis
      by (intro exI [of _ j0] exI [of _ tr0] conjI A C)
  next
    case False
    obtain wr where wr: "Job_wait e 600 10 (j0, tr0) = Some wr"
      using assms poll r0 False
      by (cases "Job_wait e 600 10 (j0, tr0)") (simp_all add: Job_results_def)
    obtain r1 j1 tr1 where wr': "wr = (r1, j1, tr1)"
      by (cases wr) auto
    have r1: "r1 = Inr ()"
      using assms poll r0 False wr wr' by (cases r1) (simp_all add: Job_results_def)
    have C: "Job_results e (j, tr) =
            (case results_each e (batches j1) tr1 of
               None \<Rightarrow> None
             | Some (y, bs, tr2) \<Rightarrow> Some (y, j1\<lparr>batches := bs\<rparr>, tr2))"
      using poll r0 False wr wr' r1 by (simp add: Job_results_def)
    have A: "if d then j1 = j0 \<and> tr1 = tr0 else Job_wait e 600 10 (j0, tr0) = Some (Inr (), j1, tr1)"
      using False wr wr' r1 by simp
    show ?thesis
      by (intro exI [of _ j1] exI [of _ tr1] conjI A C)
  qed
  then obtain j1 tr1 where
    w: "if d then j1 = j0 \<and> tr1 = tr0 else Job_wait e 600 10 (j0, tr0) = Some (Inr (), j1, tr1)" and
    tail: "(case results_each e (batches j1) tr1 of
               None \<Rightarrow> None
             | Some (y, bs, tr2) \<Rightarrow> Some (y, j1\<lparr>batches := bs\<rparr>, tr2)) = Some ((rows, None), j', tr')"
    using assms by auto
  from tail obtain bs' where each: "results_each e (batches j1) tr1 = Some ((rows, None), bs', tr')"
      and j': "j' = j1\<lparr>batches := bs'\<rparr>"
    by (cases "results_each e (batches j1) tr1") auto
  from results_each_run [OF each] obtain rss trs where k:
    "length rss = length (batches j1)" "length trs = Suc (length (batches j1))"
    "length bs' = length (batches j1)" "trs ! 0 = tr1" "trs ! length (batches j1) = tr'"
    "rows = concat rss"
    "\<forall>i<length (batches j1). results_of e (batches j1 ! i, trs ! i) = Some ((rss ! i, None), bs' ! i, trs ! Suc i)"
    by blast
  have bj: "batches j' = bs'"
    using j' by simp
  have p: "Job_is_done e (j, tr) = (Inr d, j0, tr0)"
    using poll r0 by simp
  show ?thesis
    by (intro exI [of _ d] exI [of _ j0] exI [of _ tr0] exI [of _ j1] exI [of _ tr1]
          exI [of _ rss] exI [of _ trs] conjI p w k(1,2,4,5,6))
       (simp_all add: bj k(3) k(7))
qed

lemma Batch_wait_default:
  "\<exists>r b' k. Batch_wait e 600 10 (b, tr)
       = Some (r, b', tr @ concat (replicate k [Get (headers (session b)) (endpoint b), Sleep 10])
                       @ [Get (headers (session b)) (endpoint b)]) \<and>
     k \<le> 60 \<and> session b' = session b \<and> endpoint b' = endpoint b"
proof -
  have pos: "(0::int) < 10"
    by simp
  from wait_loop_run [OF pos, of e 600 0 b tr] obtain k r b' where h:
    "wait_loop e 600 10 0 (b, tr)
        = Some (r, b', tr @ concat (replicate k [Get (headers (session b)) (endpoint b), Sleep 10])
                        @ [Get (headers (session b)) (endpoint b)])"
    "0 < k \<longrightarrow> 0 + int (k - 1) * 10 < 600"
    by (elim exE conjE)
  have k: "k \<le> 60"
    using h(2) by (cases k) simp_all
  have f: "session b' = session b \<and> endpoint b' = endpoint b"
    using wait_loop_fields [OF pos h(1)] .
  show ?thesis
    using h(1) k f unfolding Batch_wait_def by blast
qed

lemma Batch_wait_default_run:
  assumes "Batch_wait e 600 10 (b, tr) = Some (r, b', tr')"
  shows "session b' = session b \<and> endpoint b' = endpoint b \<and>
     (\<exists>k\<le>60. tr' = tr @ concat (replicate k [Get (headers (session b)) (endpoint b), Sleep 10])
                        @ [Get (headers (session b)) (endpoint b)])"
  using Batch_wait_default [of e b tr] assms by auto

lemma Batch_wait_default_total: "\<exists>y. Batch_wait e 600 10 s = Some y"
  using Batch_wait_default [of e "fst s" "snd s"] by auto

lemma wait_each_total: "\<exists>y. wait_each e 600 10 bs tr = Some y"
proof (induction bs arbitrary: tr)
  case Nil
  then show ?case by simp
next
  case (Cons b bs)
  obtain r b1 tr1 where w: "Batch_wait e 600 10 (b, tr) = Some (r, b1, tr1)"
    using Batch_wait_default_total [of e "(b, tr)"] by (metis prod_cases3)
  show ?case
  proof (cases r)
    case (Inl x)
    with w show ?thesis by simp
  next
    case (Inr u)
    from Cons.IH [of tr1] obtain y where "wait_each e 600 10 bs tr1 = Some y"
      by blast
    with w Inr show ?thesis
      by (cases y) simp
  qed
qed

lemma wait_each_run:
  "wait_each e 600 10 bs tr = Some (Inr (), bs', tr') \<Longrightarrow>
     \<exists>ws. length ws = Suc (length bs) \<and> length bs' = length bs \<and> ws ! 0 = tr \<and> ws ! length bs = tr' \<and>
       (\<forall>i<length bs.
          Batch_wait e 600 10 (bs ! i, ws ! i) = Some (Inr (), bs' ! i, ws ! Suc i) \<and>
          (\<exists>k\<le>60. ws ! Suc i = ws ! i
               @ concat (replicate k [Get (headers (session (bs ! i))) (endpoint (bs ! i)), Sleep 10])
               @ [Get (headers (session (bs ! i))) (endpoint (bs ! i))]))"
proof (induction bs arbitrary: tr bs')
  case Nil
  then show ?case
    by (intro exI [of _ "[tr]"]) auto
next
  case (Cons b bs)
  from Cons.prems obtain b1 tr1 bs1 where
    one: "Batch_wait e 600 10 (b, tr) = Some (Inr (), b1, tr1)" and
    rest: "wait_each e 600 10 bs tr1 = Some (Inr (), bs1, tr')" and
    eq: "bs' = b1 # bs1"
    by (auto split: option.splits sum.splits prod.splits)
  from Batch_wait_default_run [OF one] have shape:
    "\<exists>k\<le>60. tr1 = tr @ concat (replicate k [Get (headers (session b)) (endpoint b), Sleep 10])
                        @ [Get (headers (session b)) (endpoint b)]"
    by simp
  from Cons.IH [OF rest] obtain ws where ih:
    "length ws = Suc (length bs)" "length bs1 = length bs" "ws ! 0 = tr1" "ws ! length bs = tr'"
    "\<forall>i<length bs.
          Batch_wait e 600 10 (bs ! i, ws ! i) = Some (Inr (), bs1 ! i, ws ! Suc i) \<and>
          (\<exists>k\<le>60. ws ! Suc i = ws ! i
               @ concat (replicate k [Get (headers (session (bs ! i))) (endpoint (bs ! i)), Sleep 10])
               @ [Get (headers (session (bs ! i))) (endpoint (bs ! i))])"
    by blast
  have each: "\<forall>i<length (b # bs).
          Batch_wait e 600 10 ((b # bs) ! i, (tr # ws) ! i) = Some (Inr (), (b1 # bs1) ! i, (tr # ws) ! Suc i) \<and>
          (\<exists>k\<le>60. (tr # ws) ! Suc i = (tr # ws) ! i
               @ concat (replicate k [Get (headers (session ((b # bs) ! i))) (endpoint ((b # bs) ! i)), Sleep 10])
               @ [Get (headers (session ((b # bs) ! i))) (endpoint ((b # bs) ! i))])"
  proof (intro allI impI)
    fix i assume i: "i < length (b # bs)"
    show "Batch_wait e 600 10 ((b # bs) ! i, (tr # ws) ! i) = Some (Inr (), (b1 # bs1) ! i, (tr # ws) ! Suc i) \<and>
          (\<exists>k\<le>60. (tr # ws) ! Suc i = (tr # ws) ! i
               @ concat (replicate k [Get (headers (session ((b # bs) ! i))) (endpoint ((b # bs) ! i)), Sleep 10])
               @ [Get (headers (session ((b # bs) ! i))) (endpoint ((b # bs) ! i))])"
    proof (cases i)
      case 0
      then show ?thesis using one shape ih(3) by simp
    next
      case (Suc m)
      then have "m < length bs" using i by simp
      with ih(5) Suc show ?thesis by simp
    qed
  qed
  show ?case
    apply (intro exI [of _ "tr # ws"])
    using ih(1,2,4) eq each by simp
qed

lemma Batch_results_total: "Batch_results e s \<noteq> None"
proof -
  obtain r0 b0 tr0 where poll: "Batch_is_done e False s = (r0, b0, tr0)"
    by (cases "Batch_is_done e False s") auto
  show ?thesis
  proof (cases r0)
    case (Inl x)
    with poll show ?thesis by (simp add: Batch_results_def)
  next
    case (Inr d)
    show ?thesis
    proof (cases d)
      case True
      with poll Inr show ?thesis
        by (simp add: Batch_results_def session_get_def split: sum.splits)
    next
      case False
      obtain r1 b1 tr1 where w: "Batch_wait e 600 10 (b0, tr0) = Some (r1, b1, tr1)"
        using Batch_wait_default_total [of e "(b0, tr0)"] by auto
      show ?thesis
      proof (cases r1)
        case (Inl x)
        with poll Inr False w show ?thesis
          by (simp add: Batch_results_def)
      next
        case r1: (Inr u)
        with poll Inr False w show ?thesis
          by (simp add: Batch_results_def session_get_def split: sum.splits)
      qed
    qed
  qed
qed

lemma BatchQuery_results_total: "BatchQuery_results e s \<noteq> None"
proof -
  obtain r0 b0 tr0 where poll: "Batch_is_done e False s = (r0, b0, tr0)"
    by (cases "Batch_is_done e False s") auto
  show ?thesis
  proof (cases r0)
    case (Inl x)
    with poll show ?thesis by (simp add: BatchQuery_results_def)
  next
    case (Inr d)
    show ?thesis
    proof (cases d)
      case True
      with poll Inr show ?thesis
        by (simp add: BatchQuery_results_def session_get_def split: sum.splits prod.splits)
    next
      case False
      obtain r1 b1 tr1 where w: "Batch_wait e 600 10 (b0, tr0) = Some (r1, b1, tr1)"
        using Batch_wait_default_total [of e "(b0, tr0)"] by auto
      show ?thesis
      proof (cases r1)
        case (Inl x)
        with poll Inr False w show ?thesis
          by (simp add: BatchQuery_results_def)
      next
        case r1: (Inr u)
        with poll Inr False w show ?thesis
          by (simp add: BatchQuery_results_def session_get_def split: sum.splits prod.splits)
      qed
    qed
  qed
qed

lemma results_of_total: "\<exists>y. results_of e s = Some y"
  using Batch_results_total [of e s] BatchQuery_results_total [of e s]
  by (auto simp: results_of_def)

lemma results_each_total: "\<exists>y. results_each e bs tr = Some y"
proof (induction bs arbitrary: tr)
  case Nil
  then show ?case by simp
next
  case (Cons b bs)
  obtain rows x b1 tr1 where one: "results_of e (b, tr) = Some ((rows, x), b1, tr1)"
    using results_of_total [of e "(b, tr)"] by (metis prod_cases3 surj_pair)
  show ?case
  proof (cases x)
    case (Some ex)
    with one show ?thesis by simp
  next
    case None
    from Cons.IH [of tr1] obtain y where "results_each e bs tr1 = Some y"
      by blast
    with one None show ?thesis
      by (cases y) (auto split: prod.splits)
  qed
qed

lemma Job_wait_total: "\<exists>y. Job_wait e 600 10 s = Some y"
proof (cases s)
  case (Pair j tr)
  obtain y where "wait_each e 600 10 (batches j) tr = Some y"
    using wait_each_total by blast
  with Pair show ?thesis
    by (cases y) (simp add: Job_wait_def)
qed

lemma Job_results_total: "\<exists>y. Job_results e s = Some y"
proof -
  obtain r0 j0 tr0 where poll: "Job_is_done e s = (r0, j0, tr0)"
    by (cases "Job_is_done e s") auto
  show ?thesis
  proof (cases r0)
    case (Inl x)
    with poll show ?thesis by (simp add: Job_results_def)
  next
    case (Inr d)
    show ?thesis
    proof (cases d)
      case True
      obtain y where "results_each e (batches j0) tr0 = Some y"
        using results_each_total by blast
      with poll Inr True show ?thesis
        by (cases y) (simp add: Job_results_def)
    next
      case False
      obtain r1 j1 tr1 where w: "Job_wait e 600 10 (j0, tr0) = Some (r1, j1, tr1)"
        using Job_wait_total [of e "(j0, tr0)"] by auto
      show ?thesis
      proof (cases r1)
        case (Inl x)
        with poll Inr False w show ?thesis
          by (simp add: Job_results_def)
      next
        case r1: (Inr u)
        obtain y where "results_each e (batches j1) tr1 = Some y"
          using results_each_total by blast
        with poll Inr False w r1 show ?thesis
          by (cases y) (simp add: Job_results_def)
      qed
    qed
  qed
qed

lemma Job_wait_run:
  assumes "Job_wait e 600 10 (j0, tr0) = Some (Inr (), j1, tr1)"
  shows "j1 = j0\<lparr>batches := batches j1\<rparr> \<and>
     (\<exists>ws. length ws = Suc (length (batches j0)) \<and> length (batches j1) = length (batches j0) \<and>
        ws ! 0 = tr0 \<and> ws ! length (batches j0) = tr1 \<and>
        (\<forall>i<length (batches j0).
           Batch_wait e 600 10 (batches j0 ! i, ws ! i) = Some (Inr (), batches j1 ! i, ws ! Suc i) \<and>
           (\<exists>k\<le>60. ws ! Suc i = ws ! i
                @ concat (replicate k [Get (headers (session (batches j0 ! i))) (endpoint (batches j0 ! i)), Sleep 10])
                @ [Get (headers (session (batches j0 ! i))) (endpoint (batches j0 ! i))])))"
proof -
  from assms obtain bs where w: "wait_each e 600 10 (batches j0) tr0 = Some (Inr (), bs, tr1)"
      and j1: "j1 = j0\<lparr>batches := bs\<rparr>"
    by (auto simp: Job_wait_def split: option.splits)
  have b: "batches j1 = bs"
    using j1 by simp
  from wait_each_run [OF w] show ?thesis
    unfolding b using j1 by simp
qed

lemma BatchQuery_results_stages:
  assumes "BatchQuery_results e (b, tr) = Some ((rows, None), b', tr')"
  shows "session b' = session b \<and> endpoint b' = endpoint b \<and>
    (\<exists>d b0 tr0 tr1 reply idv ids chunks.
      Batch_is_done e False (b, tr) = (Inr d, b0, tr0) \<and>
      (if d then b' = b0 \<and> tr1 = tr0
       else Batch_wait e 600 10 (b0, tr0) = Some (Inr (), b', tr1) \<and>
            (\<exists>k\<le>60. tr1 = tr0 @ concat (replicate k [Get (headers (session b)) (endpoint b), Sleep 10])
                                @ [Get (headers (session b)) (endpoint b)])) \<and>
      srv e tr1 (Get (headers (session b)) (endpoint b @ ''/result'')) = Inr reply \<and>
      status_code reply < 400 \<and> json_body reply = Some idv \<and> py_iter idv = Inr ids \<and>
      tr' = tr1 @ Get (headers (session b)) (endpoint b @ ''/result'')
                # map (\<lambda>rid. Get (headers (session b)) (endpoint b @ ''/result/'' @ fmt e rid)) ids \<and>
      length chunks = length ids \<and> rows = concat chunks \<and>
      (\<forall>i<length ids. \<exists>resp v.
          srv e (tr1 @ Get (headers (session b)) (endpoint b @ ''/result'')
                     # map (\<lambda>rid. Get (headers (session b)) (endpoint b @ ''/result/'' @ fmt e rid)) (take i ids))
             (Get (headers (session b)) (endpoint b @ ''/result/'' @ fmt e (ids ! i))) = Inr resp \<and>
          status_code resp < 400 \<and> json_body resp = Some v \<and> py_iter v = Inr (chunks ! i)))"
proof -
  let ?P = "Get (headers (session b)) (endpoint b)"
  let ?R = "\<lambda>b. Get (headers (session b)) (endpoint b @ ''/result'')"
  let ?G = "\<lambda>rid. Get (headers (session b)) (endpoint b @ ''/result/'' @ fmt e rid)"
  let ?tail = "\<lambda>b1 tr1.
     (case srv e tr1 (?R b1) of
        Inl x \<Rightarrow> Some (([], Some x), b1, tr1 @ [?R b1])
      | Inr resp \<Rightarrow>
          (case check_status resp of
             Inl x \<Rightarrow> Some (([], Some x), b1, tr1 @ [?R b1])
           | Inr _ \<Rightarrow>
               (case response_json resp of
                  Inl x \<Rightarrow> Some (([], Some x), b1, tr1 @ [?R b1])
                | Inr result_ids \<Rightarrow>
                    (case py_iter result_ids of
                       Inl x \<Rightarrow> Some (([], Some x), b1, tr1 @ [?R b1])
                     | Inr ids \<Rightarrow>
                         (case result_chunks e b1 ids (tr1 @ [?R b1]) of
                            (y, tr3) \<Rightarrow> Some (y, b1, tr3))))))"
  let ?stage = "\<lambda>d b0 tr0 b1 tr1.
      (if d then b1 = b0 \<and> tr1 = tr0
       else Batch_wait e 600 10 (b0, tr0) = Some (Inr (), b1, tr1) \<and>
            (\<exists>k\<le>60. tr1 = tr0 @ concat (replicate k [?P, Sleep 10]) @ [?P]))"
  obtain r0 b0 tr0 where poll: "Batch_is_done e False (b, tr) = (r0, b0, tr0)"
    by (cases "Batch_is_done e False (b, tr)") auto
  from assms poll obtain d where r0: "r0 = Inr d"
    by (cases r0) (auto simp: BatchQuery_results_def)
  have p: "Batch_is_done e False (b, tr) = (Inr d, b0, tr0)"
    using poll r0 by simp
  have f0: "session b0 = session b" "endpoint b0 = endpoint b"
    using Batch_is_done_fields [OF poll] by simp_all
  have "\<exists>b1 tr1. ?stage d b0 tr0 b1 tr1 \<and> session b1 = session b \<and> endpoint b1 = endpoint b \<and>
          BatchQuery_results e (b, tr) = ?tail b1 tr1"
  proof (cases d)
    case True
    then have C: "BatchQuery_results e (b, tr) = ?tail b0 tr0"
      using poll r0 by (simp add: BatchQuery_results_def session_get_def split: sum.splits)
    have S: "?stage d b0 tr0 b0 tr0"
      using True by simp
    show ?thesis
      by (intro exI [of _ b0] exI [of _ tr0] conjI S f0 C)
  next
    case False
    obtain wr where wr: "Batch_wait e 600 10 (b0, tr0) = Some wr"
      using Batch_wait_default_total by blast
    obtain r1 b1 tr1 where wr': "wr = (r1, b1, tr1)"
      by (cases wr) auto
    have r1: "r1 = Inr ()"
      using assms poll r0 False wr wr' by (cases r1) (simp_all add: BatchQuery_results_def)
    have w: "Batch_wait e 600 10 (b0, tr0) = Some (Inr (), b1, tr1)"
      using wr wr' r1 by simp
    from Batch_wait_default_run [OF w] f0 have
      A: "session b1 = session b" and B: "endpoint b1 = endpoint b" and
      K: "\<exists>k\<le>60. tr1 = tr0 @ concat (replicate k [?P, Sleep 10]) @ [?P]"
      by simp_all
    have S: "?stage d b0 tr0 b1 tr1"
      using False w K by simp
    have C: "BatchQuery_results e (b, tr) = ?tail b1 tr1"
      using poll r0 False w by (simp add: BatchQuery_results_def session_get_def split: sum.splits)
    show ?thesis
      by (intro exI [of _ b1] exI [of _ tr1] conjI S A B C)
  qed
  then obtain b1 tr1 where st: "?stage d b0 tr0 b1 tr1"
      and f1: "session b1 = session b" "endpoint b1 = endpoint b"
      and tail: "?tail b1 tr1 = Some ((rows, None), b', tr')"
    using assms by auto
  from tail obtain reply where rep: "srv e tr1 (?R b1) = Inr reply"
    by (cases "srv e tr1 (?R b1)") auto
  from tail rep have sc: "status_code reply < 400"
    by (cases "check_status reply") (auto simp: check_status_Inr_iff)
  from tail rep sc obtain idv where idv: "json_body reply = Some idv"
    by (cases "json_body reply") (auto simp: check_status_ok response_json_def)
  from tail rep sc idv obtain ids where ids: "py_iter idv = Inr ids"
    by (cases "py_iter idv") (auto simp: check_status_ok response_json_def)
  from tail rep sc idv ids have ch: "result_chunks e b1 ids (tr1 @ [?R b1]) = ((rows, None), tr')" and b': "b' = b1"
    by (auto simp: check_status_ok response_json_def split: prod.splits)
  from result_chunks_run [OF ch] obtain chunks where k:
    "tr' = (tr1 @ [?R b1]) @ map (\<lambda>rid. Get (headers (session b1)) (endpoint b1 @ ''/result/'' @ fmt e rid)) ids"
    "length chunks = length ids" "rows = concat chunks"
    "\<forall>i<length ids. \<exists>resp v.
        srv e ((tr1 @ [?R b1]) @ map (\<lambda>rid. Get (headers (session b1)) (endpoint b1 @ ''/result/'' @ fmt e rid)) (take i ids))
           (Get (headers (session b1)) (endpoint b1 @ ''/result/'' @ fmt e (ids ! i))) = Inr resp \<and>
        status_code resp < 400 \<and> json_body resp = Some v \<and> py_iter v = Inr (chunks ! i)"
    by blast
  have t: "tr' = tr1 @ ?R b # map ?G ids"
    using k(1) unfolding f1 by simp
  have c: "\<forall>i<length ids. \<exists>resp v.
        srv e (tr1 @ ?R b # map ?G (take i ids)) (?G (ids ! i)) = Inr resp \<and>
        status_code resp < 400 \<and> json_body resp = Some v \<and> py_iter v = Inr (chunks ! i)"
    using k(4) unfolding f1 by simp
  have r: "srv e tr1 (?R b) = Inr reply"
    using rep unfolding f1 .
  have st': "if d then b' = b0 \<and> tr1 = tr0
       else Batch_wait e 600 10 (b0, tr0) = Some (Inr (), b', tr1) \<and>
            (\<exists>k\<le>60. tr1 = tr0 @ concat (replicate k [?P, Sleep 10]) @ [?P])"
    using st unfolding b' .
  have "\<exists>d b0 tr0 tr1 reply idv ids chunks.
      Batch_is_done e False (b, tr) = (Inr d, b0, tr0) \<and>
      (if d then b' = b0 \<and> tr1 = tr0
       else Batch_wait e 600 10 (b0, tr0) = Some (Inr (), b', tr1) \<and>
            (\<exists>k\<le>60. tr1 = tr0 @ concat (replicate k [?P, Sleep 10]) @ [?P])) \<and>
      srv e tr1 (?R b) = Inr reply \<and>
      status_code reply < 400 \<and> json_body reply = Some idv \<and> py_iter idv = Inr ids \<and>
      tr' = tr1 @ ?R b # map ?G ids \<and>
      length chunks = length ids \<and> rows = concat chunks \<and>
      (\<forall>i<length ids. \<exists>resp v.
          srv e (tr1 @ ?R b # map ?G (take i ids)) (?G (ids ! i)) = Inr resp \<and>
          status_code resp < 400 \<and> json_body resp = Some v \<and> py_iter v = Inr (chunks ! i))"
    by (intro exI [of _ d] exI [of _ b0] exI [of _ tr0] exI [of _ tr1] exI [of _ reply] exI [of _ idv]
          exI [of _ ids] exI [of _ chunks] conjI p st' r sc idv ids t k(2) k(3) c)
  with f1 b' show ?thesis
    by simp
qed

lemma Job_results_stages:
  assumes "Job_results e (j, tr) = Some ((rows, None), j', tr')"
  shows "\<exists>d j0 tr0 j1 tr1 rss trs.
      Job_is_done e (j, tr) = (Inr d, j0, tr0) \<and>
      (if d then j1 = j0 \<and> tr1 = tr0
       else Job_wait e 600 10 (j0, tr0) = Some (Inr (), j1, tr1) \<and>
            j1 = j0\<lparr>batches := batches j1\<rparr> \<and>
            (\<exists>ws. length ws = Suc (length (batches j0)) \<and> length (batches j1) = length (batches j0) \<and>
               ws ! 0 = tr0 \<and> ws ! length (batches j0) = tr1 \<and>
               (\<forall>i<length (batches j0).
                  Batch_wait e 600 10 (batches j0 ! i, ws ! i) = Some (Inr (), batches j1 ! i, ws ! Suc i) \<and>
                  (\<exists>k\<le>60. ws ! Suc i = ws ! i
                       @ concat (replicate k [Get (headers (session (batches j0 ! i))) (endpoint (batches j0 ! i)), Sleep 10])
                       @ [Get (headers (session (batches j0 ! i))) (endpoint (batches j0 ! i))])))) \<and>
      length rss = length (batches j1) \<and> length trs = Suc (length (batches j1)) \<and>
      length (batches j') = length (batches j1) \<and>
      trs ! 0 = tr1 \<and> trs ! length (batches j1) = tr' \<and> rows = concat rss \<and>
      (\<forall>i<length (batches j1).
          results_of e (batches j1 ! i, trs ! i) = Some ((rss ! i, None), batches j' ! i, trs ! Suc i))"
proof -
  from Job_results_run [OF assms] obtain d j0 tr0 j1 tr1 rss trs where h:
    "Job_is_done e (j, tr) = (Inr d, j0, tr0)"
    "if d then j1 = j0 \<and> tr1 = tr0 else Job_wait e 600 10 (j0, tr0) = Some (Inr (), j1, tr1)"
    "length rss = length (batches j1)" "length trs = Suc (length (batches j1))"
    "length (batches j') = length (batches j1)"
    "trs ! 0 = tr1" "trs ! length (batches j1) = tr'" "rows = concat rss"
    "\<forall>i<length (batches j1).
          results_of e (batches j1 ! i, trs ! i) = Some ((rss ! i, None), batches j' ! i, trs ! Suc i)"
    by blast
  have st: "if d then j1 = j0 \<and> tr1 = tr0
       else Job_wait e 600 10 (j0, tr0) = Some (Inr (), j1, tr1) \<and>
            j1 = j0\<lparr>batches := batches j1\<rparr> \<and>
            (\<exists>ws. length ws = Suc (length (batches j0)) \<and> length (batches j1) = length (batches j0) \<and>
               ws ! 0 = tr0 \<and> ws ! length (batches j0) = tr1 \<and>
               (\<forall>i<length (batches j0).
                  Batch_wait e 600 10 (batches j0 ! i, ws ! i) = Some (Inr (), batches j1 ! i, ws ! Suc i) \<and>
                  (\<exists>k\<le>60. ws ! Suc i = ws ! i
                       @ concat (replicate k [Get (headers (session (batches j0 ! i))) (endpoint (batches j0 ! i)), Sleep 10])
                       @ [Get (headers (session (batches j0 ! i))) (endpoint (batches j0 ! i))])))"
  proof (cases d)
    case True
    with h(2) show ?thesis by simp
  next
    case False
    with h(2) have w: "Job_wait e 600 10 (j0, tr0) = Some (Inr (), j1, tr1)"
      by simp
    from Job_wait_run [OF w] w False show ?thesis
      by simp
  qed
  show ?thesis
    by (intro exI [of _ d] exI [of _ j0] exI [of _ tr0] exI [of _ j1] exI [of _ tr1]
          exI [of _ rss] exI [of _ trs] conjI h(1) st h(3-9))
qed

text \<open>
  C5. Both generators always come to an end when drained: the waits they make use
  the defaults (600 and 10), and a wait with a positive interval returns. For a run
  that ends without an exception:

  Job.results first asks the job whether it is done (batches \<open>j0\<close>, trace \<open>tr0\<close>
  afterwards). If it is not, it waits with the defaults: one Batch.wait(600, 10)
  per batch, in the order of the list, each starting where the one before ended
  (\<open>ws ! i\<close> is the trace before the wait on batch \<open>i\<close>); each such wait is a poll
  followed by at most 60 times a sleep of 10 and a poll. Then the rows yielded are
  the concatenation, in the order of the job's list, of what \<open>results()\<close> of each
  batch yields, each batch being run in the state the one before it left
  (\<open>trs ! i\<close> is the trace before batch \<open>i\<close>, \<open>rss ! i\<close> its rows).

  BatchQuery.results first asks the batch whether it is done and, if it is not,
  waits with the defaults (a poll, then at most 60 times a sleep of 10 and a poll).
  Then one GET on the result URI gives the list of ids; there is one GET per id, in
  the order of that list, and the rows yielded are the concatenation, in that
  order, of the rows of each reply (\<open>chunks ! i\<close> is what iterating over the body
  of the reply to id \<open>i\<close> gives).
\<close>

theorem results_in_order:
  "(\<exists>y. Job_results e (j, tr) = Some y) \<and>
   (\<exists>y. BatchQuery_results e (b, qtr) = Some y) \<and>
   (Job_results e (j, tr) = Some ((rows, None), j', tr') \<longrightarrow>
      (\<exists>d j0 tr0 j1 tr1 rss trs.
         Job_is_done e (j, tr) = (Inr d, j0, tr0) \<and>
         (if d then j1 = j0 \<and> tr1 = tr0
          else Job_wait e 600 10 (j0, tr0) = Some (Inr (), j1, tr1) \<and>
               j1 = j0\<lparr>batches := batches j1\<rparr> \<and>
               (\<exists>ws. length ws = Suc (length (batches j0)) \<and> length (batches j1) = length (batches j0) \<and>
                  ws ! 0 = tr0 \<and> ws ! length (batches j0) = tr1 \<and>
                  (\<forall>i<length (batches j0).
                     Batch_wait e 600 10 (batches j0 ! i, ws ! i) = Some (Inr (), batches j1 ! i, ws ! Suc i) \<and>
                     (\<exists>k\<le>60. ws ! Suc i = ws ! i
                          @ concat (replicate k [Get (headers (session (batches j0 ! i))) (endpoint (batches j0 ! i)), Sleep 10])
                          @ [Get (headers (session (batches j0 ! i))) (endpoint (batches j0 ! i))])))) \<and>
         length rss = length (batches j1) \<and> length trs = Suc (length (batches j1)) \<and>
         length (batches j') = length (batches j1) \<and>
         trs ! 0 = tr1 \<and> trs ! length (batches j1) = tr' \<and> rows = concat rss \<and>
         (\<forall>i<length (batches j1).
             results_of e (batches j1 ! i, trs ! i) = Some ((rss ! i, None), batches j' ! i, trs ! Suc i)))) \<and>
   (BatchQuery_results e (b, qtr) = Some ((qrows, None), b', qtr') \<longrightarrow>
      session b' = session b \<and> endpoint b' = endpoint b \<and>
      (\<exists>d b0 tr0 tr1 reply idv ids chunks.
         Batch_is_done e False (b, qtr) = (Inr d, b0, tr0) \<and>
         (if d then b' = b0 \<and> tr1 = tr0
          else Batch_wait e 600 10 (b0, tr0) = Some (Inr (), b', tr1) \<and>
               (\<exists>k\<le>60. tr1 = tr0 @ concat (replicate k [Get (headers (session b)) (endpoint b), Sleep 10])
                                   @ [Get (headers (session b)) (endpoint b)])) \<and>
         srv e tr1 (Get (headers (session b)) (endpoint b @ ''/result'')) = Inr reply \<and>
         status_code reply < 400 \<and> json_body reply = Some idv \<and> py_iter idv = Inr ids \<and>
         qtr' = tr1 @ Get (headers (session b)) (endpoint b @ ''/result'')
                   # map (\<lambda>rid. Get (headers (session b)) (endpoint b @ ''/result/'' @ fmt e rid)) ids \<and>
         length chunks = length ids \<and> qrows = concat chunks \<and>
         (\<forall>i<length ids. \<exists>resp v.
             srv e (tr1 @ Get (headers (session b)) (endpoint b @ ''/result'')
                        # map (\<lambda>rid. Get (headers (session b)) (endpoint b @ ''/result/'' @ fmt e rid)) (take i ids))
                (Get (headers (session b)) (endpoint b @ ''/result/'' @ fmt e (ids ! i))) = Inr resp \<and>
             status_code resp < 400 \<and> json_body resp = Some v \<and> py_iter v = Inr (chunks ! i))))"
proof (intro conjI impI)
  show "\<exists>y. Job_results e (j, tr) = Some y"
    by (rule Job_results_total)
  show "\<exists>y. BatchQuery_results e (b, qtr) = Some y"
    using BatchQuery_results_total [of e "(b, qtr)"] by auto
next
  assume "Job_results e (j, tr) = Some ((rows, None), j', tr')"
  then show "\<exists>d j0 tr0 j1 tr1 rss trs.
         Job_is_done e (j, tr) = (Inr d, j0, tr0) \<and>
         (if d then j1 = j0 \<and> tr1 = tr0
          else Job_wait e 600 10 (j0, tr0) = Some (Inr (), j1, tr1) \<and>
               j1 = j0\<lparr>batches := batches j1\<rparr> \<and>
               (\<exists>ws. length ws = Suc (length (batches j0)) \<and> length (batches j1) = length (batches j0) \<and>
                  ws ! 0 = tr0 \<and> ws ! length (batches j0) = tr1 \<and>
                  (\<forall>i<length (batches j0).
                     Batch_wait e 600 10 (batches j0 ! i, ws ! i) = Some (Inr (), batches j1 ! i, ws ! Suc i) \<and>
                     (\<exists>k\<le>60. ws ! Suc i = ws ! i
                          @ concat (replicate k [Get (headers (session (batches j0 ! i))) (endpoint (batches j0 ! i)), Sleep 10])
                          @ [Get (headers (session (batches j0 ! i))) (endpoint (batches j0 ! i))])))) \<and>
         length rss = length (batches j1) \<and> length trs = Suc (length (batches j1)) \<and>
         length (batches j') = length (batches j1) \<and>
         trs ! 0 = tr1 \<and> trs ! length (batches j1) = tr' \<and> rows = concat rss \<and>
         (\<forall>i<length (batches j1).
             results_of e (batches j1 ! i, trs ! i) = Some ((rss ! i, None), batches j' ! i, trs ! Suc i))"
    by (rule Job_results_stages)
next
  assume q: "BatchQuery_results e (b, qtr) = Some ((qrows, None), b', qtr')"
  from BatchQuery_results_stages [OF q] show "session b' = session b"
    by simp
  from BatchQuery_results_stages [OF q] show "endpoint b' = endpoint b"
    by simp
  from BatchQuery_results_stages [OF q] show "\<exists>d b0 tr0 tr1 reply idv ids chunks.
         Batch_is_done e False (b, qtr) = (Inr d, b0, tr0) \<and>
         (if d then b' = b0 \<and> tr1 = tr0
          else Batch_wait e 600 10 (b0, tr0) = Some (Inr (), b', tr1) \<and>
               (\<exists>k\<le>60. tr1 = tr0 @ concat (replicate k [Get (headers (session b)) (endpoint b), Sleep 10])
                                   @ [Get (headers (session b)) (endpoint b)])) \<and>
         srv e tr1 (Get (headers (session b)) (endpoint b @ ''/result'')) = Inr reply \<and>
         status_code reply < 400 \<and> json_body reply = Some idv \<and> py_iter idv = Inr ids \<and>
         qtr' = tr1 @ Get (headers (session b)) (endpoint b @ ''/result'')
                   # map (\<lambda>rid. Get (headers (session b)) (endpoint b @ ''/result/'' @ fmt e rid)) ids \<and>
         length chunks = length ids \<and> qrows = concat chunks \<and>
         (\<forall>i<length ids. \<exists>resp v.
             srv e (tr1 @ Get (headers (session b)) (endpoint b @ ''/result'')
                        # map (\<lambda>rid. Get (headers (session b)) (endpoint b @ ''/result/'' @ fmt e rid)) (take i ids))
                (Get (headers (session b)) (endpoint b @ ''/result/'' @ fmt e (ids ! i))) = Inr resp \<and>
             status_code resp < 400 \<and> json_body resp = Some v \<and> py_iter v = Inr (chunks ! i))"
    by (elim conjE)
qed

lemma slow_poll:
  assumes "endpoint b = ''J1/batch/B1'' \<or> endpoint b = ''J1/batch/B3''" and "reload \<or> p_status b = JNull"
  shows "Batch_is_done (example_env slow_srv) reload (b, t)
     = (Inr (Sleep 10 \<in> set t),
        b\<lparr>p_status := JObj [(''state'', JStr (if Sleep 10 \<in> set t then ''Completed'' else ''Queued''))]\<rparr>,
        t @ [Get (headers (session b)) (endpoint b)])"
proof -
  have "Batch_status (example_env slow_srv) reload (b, t)
     = (Inr (JObj [(''state'', JStr (if Sleep 10 \<in> set t then ''Completed'' else ''Queued''))]),
        b\<lparr>p_status := JObj [(''state'', JStr (if Sleep 10 \<in> set t then ''Completed'' else ''Queued''))]\<rparr>,
        t @ [Get (headers (session b)) (endpoint b)])"
    using assms by (auto simp: Batch_status_fetch example_env_def slow_srv_def ok_json_def)
  then show ?thesis
    by (simp add: Batch_is_done_obj in_error_states_def example_env_def)
qed

lemma cached_completed:
  assumes "p_status b = JObj [(''state'', JStr ''Completed'')]"
  shows "Batch_is_done (example_env f) False (b, t) = (Inr True, b, t)"
proof -
  have "Batch_status (example_env f) False (b, t) = (Inr (JObj [(''state'', JStr ''Completed'')]), b, t)"
    using assms by (simp add: Batch_status_cached)
  then show ?thesis
    by (simp add: Batch_is_done_obj in_error_states_def example_env_def)
qed

lemma slow_wait_fresh:
  assumes "endpoint b = ''J1/batch/B1'' \<or> endpoint b = ''J1/batch/B3''" and "Sleep 10 \<notin> set t"
  shows "Batch_wait (example_env slow_srv) 600 10 (b, t)
     = Some (Inr (), b\<lparr>p_status := JObj [(''state'', JStr ''Completed'')]\<rparr>,
         t @ [Get (headers (session b)) (endpoint b), Sleep 10, Get (headers (session b)) (endpoint b)])"
  unfolding Batch_wait_def
  apply (subst wait_loop.simps)
  apply (simp add: slow_poll assms time_sleep_def)
  apply (subst wait_loop.simps)
  apply (simp add: slow_poll assms)
  done

lemma slow_wait_after:
  assumes "endpoint b = ''J1/batch/B1'' \<or> endpoint b = ''J1/batch/B3''" and "Sleep 10 \<in> set t"
  shows "Batch_wait (example_env slow_srv) 600 10 (b, t)
     = Some (Inr (), b\<lparr>p_status := JObj [(''state'', JStr ''Completed'')]\<rparr>,
         t @ [Get (headers (session b)) (endpoint b)])"
  unfolding Batch_wait_def
  apply (subst wait_loop.simps)
  apply (simp add: slow_poll assms)
  done

lemma batch_B_fields [simp]:
  "endpoint (batch_B n c) = ''J1/batch/'' @ n" "headers (session (batch_B n c)) = []"
  "p_status (batch_B n c) = c" "is_query (batch_B n c) = False"
  "(batch_B n c)\<lparr>p_status := c'\<rparr> = batch_B n c'"
  "(batch_B n c)\<lparr>is_query := q, p_status := c'\<rparr> = (batch_B n c')\<lparr>is_query := q\<rparr>"
  by (simp_all add: batch_B_def Batch_init_def example_env_def example_fmt_def)

lemma slow_plain_results:
  "Batch_results (example_env slow_srv) (batch_B ''B1'' (JObj [(''state'', JStr ''Completed'')]), t)
     = Some (([JNum 1, JNum 2], None), batch_B ''B1'' (JObj [(''state'', JStr ''Completed'')]),
         t @ [Get [] ''J1/batch/B1/result''])"
  by (simp add: Batch_results_def cached_completed)
     (simp add: session_get_def example_env_def slow_srv_def example_srv_def ok_json_def
        check_status_def response_json_def py_iter_def)

lemma slow_query_done:
  "BatchQuery_results (example_env slow_srv)
      ((batch_B ''B3'' (JObj [(''state'', JStr ''Completed'')]))\<lparr>is_query := True\<rparr>, t)
     = Some (([JNum 3, JNum 4, JNum 5], None),
         (batch_B ''B3'' (JObj [(''state'', JStr ''Completed'')]))\<lparr>is_query := True\<rparr>,
         t @ [Get [] ''J1/batch/B3/result'', Get [] ''J1/batch/B3/result/R1'', Get [] ''J1/batch/B3/result/R2''])"
  by (simp add: BatchQuery_results_def cached_completed)
     (simp add: session_get_def example_env_def slow_srv_def example_srv_def ok_json_def
        example_fmt_def check_status_def response_json_def py_iter_def)

lemma slow_query_results:
  "BatchQuery_results (example_env slow_srv) ((batch_B ''B3'' JNull)\<lparr>is_query := True\<rparr>, [])
     = Some (([JNum 3, JNum 4, JNum 5], None),
         (batch_B ''B3'' (JObj [(''state'', JStr ''Completed'')]))\<lparr>is_query := True\<rparr>,
         [Get [] ''J1/batch/B3'', Get [] ''J1/batch/B3'', Sleep 10, Get [] ''J1/batch/B3'',
          Get [] ''J1/batch/B3/result'', Get [] ''J1/batch/B3/result/R1'', Get [] ''J1/batch/B3/result/R2''])"
  by (simp add: BatchQuery_results_def slow_poll slow_wait_fresh)
     (simp add: session_get_def example_env_def slow_srv_def example_srv_def ok_json_def
        example_fmt_def check_status_def response_json_def py_iter_def)

lemma slow_job_results:
  "Job_results (example_env slow_srv) (example_job example_fresh_batches, [])
     = Some (([JNum 1, JNum 2, JNum 3, JNum 4, JNum 5], None), example_job example_result_batches,
         [Get [] ''J1/batch/B1'',
          Get [] ''J1/batch/B1'', Sleep 10, Get [] ''J1/batch/B1'', Get [] ''J1/batch/B3'',
          Get [] ''J1/batch/B1/result'', Get [] ''J1/batch/B3/result'',
          Get [] ''J1/batch/B3/result/R1'', Get [] ''J1/batch/B3/result/R2''])"
  by (simp add: Job_results_def Job_is_done_def Job_wait_def example_job_def example_fresh_batches_def
        example_result_batches_def slow_poll slow_wait_fresh slow_wait_after results_of_def
        slow_plain_results slow_query_done)

theorem results_in_order_witness:
  "Job_results (example_env slow_srv) (example_job example_fresh_batches, [])
     = Some (([JNum 1, JNum 2, JNum 3, JNum 4, JNum 5], None), example_job example_result_batches,
         [Get [] ''J1/batch/B1'',
          Get [] ''J1/batch/B1'', Sleep 10, Get [] ''J1/batch/B1'', Get [] ''J1/batch/B3'',
          Get [] ''J1/batch/B1/result'', Get [] ''J1/batch/B3/result'',
          Get [] ''J1/batch/B3/result/R1'', Get [] ''J1/batch/B3/result/R2''])
   \<and> (\<exists>rss. [JNum 1, JNum 2, JNum 3, JNum 4, JNum 5] = concat rss)
   \<and> BatchQuery_results (example_env slow_srv) ((batch_B ''B3'' JNull)\<lparr>is_query := True\<rparr>, [])
     = Some (([JNum 3, JNum 4, JNum 5], None),
         (batch_B ''B3'' (JObj [(''state'', JStr ''Completed'')]))\<lparr>is_query := True\<rparr>,
         [Get [] ''J1/batch/B3'', Get [] ''J1/batch/B3'', Sleep 10, Get [] ''J1/batch/B3'',
          Get [] ''J1/batch/B3/result'', Get [] ''J1/batch/B3/result/R1'', Get [] ''J1/batch/B3/result/R2''])
   \<and> (\<exists>chunks. [JNum 3, JNum 4, JNum 5] = concat chunks)"
proof -
  from results_in_order [where e = "example_env slow_srv" and j = "example_job example_fresh_batches"
      and tr = "[]" and rows = "[JNum 1, JNum 2, JNum 3, JNum 4, JNum 5]"
      and j' = "example_job example_result_batches"
      and tr' = "[Get [] ''J1/batch/B1'',
          Get [] ''J1/batch/B1'', Sleep 10, Get [] ''J1/batch/B1'', Get [] ''J1/batch/B3'',
          Get [] ''J1/batch/B1/result'', Get [] ''J1/batch/B3/result'',
          Get [] ''J1/batch/B3/result/R1'', Get [] ''J1/batch/B3/result/R2'']"
      and b = "(batch_B ''B3'' JNull)\<lparr>is_query := True\<rparr>"
      and qtr = "[]" and qrows = "[JNum 3, JNum 4, JNum 5]"
      and b' = "(batch_B ''B3'' (JObj [(''state'', JStr ''Completed'')]))\<lparr>is_query := True\<rparr>"
      and qtr' = "[Get [] ''J1/batch/B3'', Get [] ''J1/batch/B3'', Sleep 10, Get [] ''J1/batch/B3'',
          Get [] ''J1/batch/B3/result'', Get [] ''J1/batch/B3/result/R1'', Get [] ''J1/batch/B3/result/R2'']"]
    slow_job_results slow_query_results
  show ?thesis
    by blast
qed

section \<open>Job.post\<close>

lemma xrange_pos:
  "0 < step \<Longrightarrow>
     xrange start stop step = map (\<lambda>i. start + int i * step) [0..<nat ((stop - start + step - 1) div step)]"
proof (induction start stop step rule: xrange.induct)
  case (1 start stop step)
  show ?case
  proof (cases "start < stop")
    case True
    have ih: "xrange (start + step) stop step
        = map (\<lambda>i. start + step + int i * step) [0..<nat ((stop - (start + step) + step - 1) div step)]"
      using 1 True by simp
    have "(stop - start + step - 1) div step = (stop - start - 1) div step + 1"
      using 1(2) by (metis diff_add_eq div_add_self2 less_int_code(1))
    moreover have "0 \<le> (stop - start - 1) div step"
      using True 1(2) by (simp add: pos_imp_zdiv_nonneg_iff)
    ultimately have cnt: "nat ((stop - start + step - 1) div step) = Suc (nat ((stop - start - 1) div step))"
      by simp
    have "xrange start stop step = start # xrange (start + step) stop step"
      using True 1(2) by (subst xrange.simps) simp
    also have "\<dots> = start # map (\<lambda>i. start + step + int i * step) [0..<nat ((stop - start - 1) div step)]"
      using ih by simp
    also have "\<dots> = map (\<lambda>i. start + int i * step) [0..<Suc (nat ((stop - start - 1) div step))]"
      by (simp add: map_upt_Suc algebra_simps del: upt_Suc)
    finally show ?thesis
      using cnt by simp
  next
    case False
    then have "stop - start + step - 1 < 1 * step"
      by simp
    then have "(stop - start + step - 1) div step < 1"
      using 1(2) by (rule int_div_less [rotated])
    then have "(stop - start + step - 1) div step \<le> 0"
      by simp
    moreover have "xrange start stop step = []"
      using False 1(2) by (subst xrange.simps) simp
    ultimately show ?thesis
      by simp
  qed
qed

lemma py_slice_chunk:
  assumes "0 \<le> i" and "0 < b"
  shows "py_slice xs i (i + b) = take (nat b) (drop (nat i) xs)"
proof (cases "int (length xs) \<le> i")
  case True
  then have "length xs \<le> nat i"
    by simp
  then show ?thesis
    using assms True by (simp add: py_slice_def Let_def min_def)
next
  case False
  show ?thesis
  proof (cases "i + b \<le> int (length xs)")
    case True
    have "nat (i + b - i) = nat b"
      by simp
    then show ?thesis
      using assms True False by (simp add: py_slice_def Let_def min_def)
  next
    case over: False
    have "length (drop (nat i) xs) \<le> nat b"
      using assms over by simp
    moreover have "length (drop (nat i) xs) \<le> nat (int (length xs) - i)"
      using assms by simp
    ultimately show ?thesis
      using assms over False by (simp add: py_slice_def Let_def min_def)
  qed
qed

lemma take_drop_nth:
  "take b (drop s xs) = map ((!) xs) [s ..< min (s + b) (length xs)]"
proof (rule nth_equalityI)
  show "length (take b (drop s xs)) = length (map ((!) xs) [s ..< min (s + b) (length xs)])"
    by (auto simp: min_def)
next
  fix i assume "i < length (take b (drop s xs))"
  then have i: "i < b" "s + i < length xs"
    by auto
  then have "i < min (s + b) (length xs) - s"
    by simp
  then have "map ((!) xs) [s ..< min (s + b) (length xs)] ! i = xs ! (s + i)"
    by (rule nth_map_upt)
  then show "take b (drop s xs) ! i = map ((!) xs) [s ..< min (s + b) (length xs)] ! i"
    using i by simp
qed

lemma post_loop_run:
  "post_loop e uri data b is created (j, tr) = (r, j', tr') \<Longrightarrow>
   \<exists>k new. k \<le> length is \<and>
     tr' = tr @ map (\<lambda>i. Post (headers (job_session j)) uri (JsonBody (JArr (py_slice data i (i + b))))) (take k is) \<and>
     job_session j' = job_session j \<and> job_endpoint j' = job_endpoint j \<and> job_id j' = job_id j \<and>
     batches j' = batches j @ new \<and>
     (\<forall>n<length new. \<exists>resp v bid.
         srv e (tr @ map (\<lambda>i. Post (headers (job_session j)) uri (JsonBody (JArr (py_slice data i (i + b))))) (take n is))
            (Post (headers (job_session j)) uri (JsonBody (JArr (py_slice data (is ! n) (is ! n + b))))) = Inr resp \<and>
         status_code resp < 400 \<and> json_body resp = Some v \<and> py_getitem v ''id'' = Inr bid \<and>
         new ! n = Batch_init e (job_session j) (job_endpoint j) bid) \<and>
     (case r of Inr bs \<Rightarrow> k = length is \<and> length new = length is \<and> bs = created @ new
              | Inl x \<Rightarrow> 0 < k \<and> length new = k - 1)"
proof (induction "is" arbitrary: created j tr)
  case Nil
  then show ?case
    by (intro exI [of _ 0] exI [of _ "[]"]) auto
next
  case (Cons i rest)
  let ?P = "\<lambda>i. Post (headers (job_session j)) uri (JsonBody (JArr (py_slice data i (i + b))))"
  show ?case
  proof (cases "\<exists>resp v bid. srv e tr (?P i) = Inr resp \<and> status_code resp < 400 \<and>
                  json_body resp = Some v \<and> py_getitem v ''id'' = Inr bid")
    case False
    then obtain x where "r = Inl x" "j' = j" "tr' = tr @ [?P i]"
      using Cons.prems
      by (auto simp: session_post_def response_json_def check_status_Inr_iff
               split: sum.splits option.splits)
    then show ?thesis
      by (intro exI [of _ 1] exI [of _ "[]"]) simp
  next
    case True
    then obtain resp v bid where ok: "srv e tr (?P i) = Inr resp" "status_code resp < 400"
        "json_body resp = Some v" "py_getitem v ''id'' = Inr bid"
      by blast
    let ?batch = "Batch_init e (job_session j) (job_endpoint j) bid"
    let ?j1 = "j\<lparr>batches := batches j @ [?batch]\<rparr>"
    have rec: "post_loop e uri data b rest (created @ [?batch]) (?j1, tr @ [?P i]) = (r, j', tr')"
      using Cons.prems ok
      by (simp add: session_post_def response_json_def check_status_ok Let_def)
    from Cons.IH [OF rec] obtain k new where ih:
      "k \<le> length rest"
      "tr' = (tr @ [?P i]) @ map ?P (take k rest)"
      "job_session j' = job_session j" "job_endpoint j' = job_endpoint j" "job_id j' = job_id j"
      "batches j' = (batches j @ [?batch]) @ new"
      "\<forall>n<length new. \<exists>resp v bid.
         srv e ((tr @ [?P i]) @ map ?P (take n rest)) (?P (rest ! n)) = Inr resp \<and>
         status_code resp < 400 \<and> json_body resp = Some v \<and> py_getitem v ''id'' = Inr bid \<and>
         new ! n = Batch_init e (job_session j) (job_endpoint j) bid"
      "case r of Inr bs \<Rightarrow> k = length rest \<and> length new = length rest \<and> bs = (created @ [?batch]) @ new
              | Inl x \<Rightarrow> 0 < k \<and> length new = k - 1"
      by auto
    have each: "\<forall>n<length (?batch # new). \<exists>resp v bid.
         srv e (tr @ map ?P (take n (i # rest))) (?P ((i # rest) ! n)) = Inr resp \<and>
         status_code resp < 400 \<and> json_body resp = Some v \<and> py_getitem v ''id'' = Inr bid \<and>
         (?batch # new) ! n = Batch_init e (job_session j) (job_endpoint j) bid"
    proof (intro allI impI)
      fix n assume n: "n < length (?batch # new)"
      show "\<exists>resp v bid.
         srv e (tr @ map ?P (take n (i # rest))) (?P ((i # rest) ! n)) = Inr resp \<and>
         status_code resp < 400 \<and> json_body resp = Some v \<and> py_getitem v ''id'' = Inr bid \<and>
         (?batch # new) ! n = Batch_init e (job_session j) (job_endpoint j) bid"
      proof (cases n)
        case 0
        then show ?thesis using ok by simp
      next
        case (Suc m)
        then have "m < length new" using n by simp
        with ih(7) Suc show ?thesis by simp
      qed
    qed
    have fin: "case r of Inr bs \<Rightarrow> Suc k = length (i # rest) \<and> length (?batch # new) = length (i # rest) \<and>
                   bs = created @ (?batch # new)
              | Inl x \<Rightarrow> 0 < Suc k \<and> length (?batch # new) = Suc k - 1"
      using ih(8) by (cases r) auto
    show ?thesis
      apply (intro exI [of _ "Suc k"] exI [of _ "?batch # new"])
      using ih(1-6) each fin by simp
  qed
qed

lemma post_loop_accepted:
  assumes "\<forall>h q. \<exists>resp v bid. srv e h q = Inr resp \<and> status_code resp < 400 \<and>
              json_body resp = Some v \<and> py_getitem v ''id'' = Inr bid"
  shows "\<exists>bs. fst (post_loop e uri data b is created (j, tr)) = Inr bs"
proof (induction "is" arbitrary: created j tr)
  case Nil
  then show ?case by simp
next
  case (Cons i rest)
  let ?q = "Post (headers (job_session j)) uri (JsonBody (JArr (py_slice data i (i + b))))"
  from assms obtain resp v bid where ok: "srv e tr ?q = Inr resp" "status_code resp < 400"
        "json_body resp = Some v" "py_getitem v ''id'' = Inr bid"
    by blast
  show ?case
    using ok Cons.IH
    by (simp add: session_post_def response_json_def check_status_ok Let_def)
qed

lemma xrange_chunks:
  assumes "0 < batch_size"
  shows "xrange 0 (int n) batch_size
     = map (\<lambda>i. int i * batch_size) [0..<(n + nat batch_size - 1) div nat batch_size]"
proof -
  have "int n + batch_size - 1 = int (n + nat batch_size - 1)"
    using assms by simp
  then have "(int n + batch_size - 1) div batch_size = int ((n + nat batch_size - 1) div nat batch_size)"
    using assms by (simp add: zdiv_int)
  then show ?thesis
    using assms by (simp add: xrange_pos)
qed

lemma slice_is_chunk:
  assumes "0 < batch_size"
  shows "py_slice data (int i * batch_size) (int i * batch_size + batch_size)
     = chunk_rows data (nat batch_size) i"
proof -
  have "nat (int i * batch_size) = i * nat batch_size"
    using assms by (simp add: nat_mult_distrib)
  moreover have "0 \<le> int i * batch_size"
    using assms by simp
  ultimately have "py_slice data (int i * batch_size) (int i * batch_size + batch_size)
      = take (nat batch_size) (drop (i * nat batch_size) data)"
    using assms by (simp add: py_slice_chunk)
  then show ?thesis
    by (simp add: chunk_rows_def take_drop_nth add.commute)
qed

text \<open>
  C2. For a batch size \<open>b > 0\<close> and \<open>n\<close> rows let \<open>m\<close> be \<open>n / b\<close> rounded up. Whatever
  the server answers, the requests of Job.post are the batch-creation POSTs of the
  chunks \<open>0, 1, ...\<close> in this order, chunk \<open>i\<close> holding the rows at the indices
  from \<open>i * b\<close> to \<open>min ((i + 1) * b) n\<close>, and there are at most \<open>m\<close> of them (an
  exception ends the call where it is raised). When the call returns, there were
  exactly \<open>m\<close> requests, the list returned has \<open>m\<close> batches, batch \<open>i\<close> being the one
  built from the id in the reply to chunk \<open>i\<close>, and the list of the job is the
  list it had before followed by the batches returned. The call returns whenever
  the server accepts every request (a status below 400 and a body with an id).
\<close>

theorem Job_post_chunks:
  assumes "0 < batch_size" and "Job_post e data batch_size (j, tr) = (r, j', tr')"
  shows "\<exists>k \<le> (length data + nat batch_size - 1) div nat batch_size.
     tr' = tr @ map (\<lambda>i. batch_post j (chunk_rows data (nat batch_size) i)) [0..<k] \<and>
     (\<forall>bs. r = Inr bs \<longrightarrow>
        k = (length data + nat batch_size - 1) div nat batch_size \<and> length bs = k \<and>
        batches j' = batches j @ bs \<and>
        (\<forall>i<k. \<exists>resp v bid.
            srv e (tr @ map (\<lambda>i. batch_post j (chunk_rows data (nat batch_size) i)) [0..<i])
               (batch_post j (chunk_rows data (nat batch_size) i)) = Inr resp \<and>
            status_code resp < 400 \<and> json_body resp = Some v \<and> py_getitem v ''id'' = Inr bid \<and>
            bs ! i = Batch_init e (job_session j) (job_endpoint j) bid)) \<and>
     ((\<forall>h q. \<exists>resp v bid. srv e h q = Inr resp \<and> status_code resp < 400 \<and>
          json_body resp = Some v \<and> py_getitem v ''id'' = Inr bid) \<longrightarrow> (\<exists>bs. r = Inr bs))"
proof -
  let ?m = "(length data + nat batch_size - 1) div nat batch_size"
  let ?is = "map (\<lambda>i. int i * batch_size) [0..<?m]"
  let ?uri = "job_endpoint j @ ''/batch''"
  let ?P = "\<lambda>i. Post (headers (job_session j)) ?uri (JsonBody (JArr (py_slice data i (i + batch_size))))"
  let ?C = "\<lambda>i. batch_post j (chunk_rows data (nat batch_size) i)"
  have run: "post_loop e ?uri data batch_size ?is [] (j, tr) = (r, j', tr')"
    using assms by (simp add: Job_post_def xrange_chunks [OF assms(1)])
  have PC: "?P (int i * batch_size) = ?C i" for i
    using assms(1) by (simp add: batch_post_def slice_is_chunk)
  have pre: "map ?P (take n ?is) = map ?C [0..<n]" if "n \<le> ?m" for n
    using that by (simp add: take_map PC o_def min_def)
  from post_loop_run [OF run] obtain k new where h:
    "k \<le> length ?is"
    "tr' = tr @ map ?P (take k ?is)"
    "batches j' = batches j @ new"
    "\<forall>n<length new. \<exists>resp v bid.
         srv e (tr @ map ?P (take n ?is)) (?P (?is ! n)) = Inr resp \<and>
         status_code resp < 400 \<and> json_body resp = Some v \<and> py_getitem v ''id'' = Inr bid \<and>
         new ! n = Batch_init e (job_session j) (job_endpoint j) bid"
    "case r of Inr bs \<Rightarrow> k = length ?is \<and> length new = length ?is \<and> bs = [] @ new
              | Inl x \<Rightarrow> 0 < k \<and> length new = k - 1"
    by blast
  have km: "k \<le> ?m"
    using h(1) by simp
  have tr': "tr' = tr @ map ?C [0..<k]"
    using h(2) pre [OF km] by simp
  have ret: "\<forall>bs. r = Inr bs \<longrightarrow>
        k = ?m \<and> length bs = k \<and> batches j' = batches j @ bs \<and>
        (\<forall>i<k. \<exists>resp v bid.
            srv e (tr @ map ?C [0..<i]) (?C i) = Inr resp \<and>
            status_code resp < 400 \<and> json_body resp = Some v \<and> py_getitem v ''id'' = Inr bid \<and>
            bs ! i = Batch_init e (job_session j) (job_endpoint j) bid)"
  proof (intro allI impI)
    fix bs assume r: "r = Inr bs"
    with h(5) have e: "k = ?m" "length new = ?m" "bs = new"
      by auto
    have "\<exists>resp v bid.
            srv e (tr @ map ?C [0..<i]) (?C i) = Inr resp \<and>
            status_code resp < 400 \<and> json_body resp = Some v \<and> py_getitem v ''id'' = Inr bid \<and>
            bs ! i = Batch_init e (job_session j) (job_endpoint j) bid" if "i < k" for i
    proof -
      have i: "i < length new" "i \<le> ?m" "i < ?m"
        using that e by auto
      have "?P (?is ! i) = ?C i"
        using i(3) PC by simp
      with h(4) [rule_format, OF i(1)] pre [OF i(2)] e(3) show ?thesis
        by simp
    qed
    with e h(3) show "k = ?m \<and> length bs = k \<and> batches j' = batches j @ bs \<and>
        (\<forall>i<k. \<exists>resp v bid.
            srv e (tr @ map ?C [0..<i]) (?C i) = Inr resp \<and>
            status_code resp < 400 \<and> json_body resp = Some v \<and> py_getitem v ''id'' = Inr bid \<and>
            bs ! i = Batch_init e (job_session j) (job_endpoint j) bid)"
      by simp
  qed
  have acc: "(\<forall>h q. \<exists>resp v bid. srv e h q = Inr resp \<and> status_code resp < 400 \<and>
          json_body resp = Some v \<and> py_getitem v ''id'' = Inr bid) \<longrightarrow> (\<exists>bs. r = Inr bs)"
  proof
    assume "\<forall>h q. \<exists>resp v bid. srv e h q = Inr resp \<and> status_code resp < 400 \<and>
          json_body resp = Some v \<and> py_getitem v ''id'' = Inr bid"
    from post_loop_accepted [OF this, of ?uri data batch_size ?is "[]" j tr] run
    show "\<exists>bs. r = Inr bs"
      by simp
  qed
  show ?thesis
    using km tr' ret acc by blast
qed

lemma example_post_run:
  "Job_post (example_env example_srv) example_rows 2 (example_job [batch_B ''B0'' JNull], [])
     = (Inr [batch_B ''b'' JNull, batch_B ''bb'' JNull, batch_B ''bbb'' JNull],
        example_job [batch_B ''B0'' JNull, batch_B ''b'' JNull, batch_B ''bb'' JNull, batch_B ''bbb'' JNull],
        [Post [] ''J1/batch'' (JsonBody (JArr [JNum 1, JNum 2])),
         Post [] ''J1/batch'' (JsonBody (JArr [JNum 3, JNum 4])),
         Post [] ''J1/batch'' (JsonBody (JArr [JNum 5]))])"
proof -
  have x: "xrange 0 5 2 = [0, 2, 4]"
    by (simp add: xrange.simps)
  show ?thesis
    by (simp add: Job_post_def x Let_def example_rows_def example_job_def py_slice_def
        session_post_def example_env_def example_srv_def ok_json_def check_status_def
        response_json_def py_getitem_def batch_B_def Batch_init_def example_fmt_def)
qed

theorem Job_post_chunks_witness:
  "Job_post (example_env example_srv) example_rows 2 (example_job [batch_B ''B0'' JNull], [])
     = (Inr [batch_B ''b'' JNull, batch_B ''bb'' JNull, batch_B ''bbb'' JNull],
        example_job [batch_B ''B0'' JNull, batch_B ''b'' JNull, batch_B ''bb'' JNull, batch_B ''bbb'' JNull],
        [Post [] ''J1/batch'' (JsonBody (JArr [JNum 1, JNum 2])),
         Post [] ''J1/batch'' (JsonBody (JArr [JNum 3, JNum 4])),
         Post [] ''J1/batch'' (JsonBody (JArr [JNum 5]))])
   \<and> (\<exists>k \<le> (length example_rows + nat 2 - 1) div nat 2.
        [Post [] ''J1/batch'' (JsonBody (JArr [JNum 1, JNum 2])),
         Post [] ''J1/batch'' (JsonBody (JArr [JNum 3, JNum 4])),
         Post [] ''J1/batch'' (JsonBody (JArr [JNum 5]))]
          = [] @ map (\<lambda>i. batch_post (example_job [batch_B ''B0'' JNull]) (chunk_rows example_rows (nat 2) i)) [0..<k]
        \<and> k = (length example_rows + nat 2 - 1) div nat 2 \<and> k = 3)"
proof -
  have pos: "(0::int) < 2"
    by simp
  from Job_post_chunks [OF pos example_post_run] show ?thesis
    using example_post_run by (auto simp: example_rows_def)
qed

section \<open>The job as a context manager\<close>

lemma Job_close_run:
  "Job_close e (j, tr) =
     (case srv e tr (Post (headers (job_session j)) (job_endpoint j) (JsonBody (JObj [(''state'', JStr ''Closed'')]))) of
        Inl x \<Rightarrow> Inl x
      | Inr resp \<Rightarrow> if status_code resp < 400 then Inr () else Inl (AttributeError ''status''),
      j, tr @ [Post (headers (job_session j)) (job_endpoint j) (JsonBody (JObj [(''state'', JStr ''Closed'')]))])"
  by (simp add: Job_close_def session_post_def check_status_ok check_status_error split: sum.splits)

text \<open>
  C8. \<open>__enter__\<close> gives the job itself. However the block ends, the with statement
  then sends exactly one request, the close request of the job, after everything the
  block did, and changes nothing else. If the block raised, the statement never
  ends normally: \<open>__exit__\<close> does not suppress the exception. When the close
  request is accepted, the exception that leaves the statement is the one the block
  raised, and a block that returned gives its value. When the close itself fails,
  the error of the close is what leaves the statement, whatever the block did.
\<close>

theorem with_Job_closes:
  assumes "block (Job_enter j, tr) = (rb, j1, tr1)"
  shows "Job_enter j = j \<and>
     (\<exists>r. with_Job e block (j, tr)
             = (r, j1, tr1 @ [Post (headers (job_session j1)) (job_endpoint j1)
                                (JsonBody (JObj [(''state'', JStr ''Closed'')]))]) \<and>
        (\<forall>x. rb = Inl x \<longrightarrow>
           (\<exists>x'. r = Inl x') \<and>
           ((\<exists>resp. srv e tr1 (Post (headers (job_session j1)) (job_endpoint j1)
                        (JsonBody (JObj [(''state'', JStr ''Closed'')]))) = Inr resp \<and>
                    status_code resp < 400) \<longrightarrow> r = Inl x)) \<and>
        (\<forall>v. rb = Inr v \<longrightarrow>
           ((\<exists>resp. srv e tr1 (Post (headers (job_session j1)) (job_endpoint j1)
                        (JsonBody (JObj [(''state'', JStr ''Closed'')]))) = Inr resp \<and>
                    status_code resp < 400) \<longrightarrow> r = Inr (Some v))) \<and>
        (\<forall>x'. fst (Job_close e (j1, tr1)) = Inl x' \<longrightarrow> r = Inl x') \<and>
        (\<forall>x'. srv e tr1 (Post (headers (job_session j1)) (job_endpoint j1)
                        (JsonBody (JObj [(''state'', JStr ''Closed'')]))) = Inl x' \<longrightarrow> r = Inl x'))"
proof -
  let ?close = "Post (headers (job_session j1)) (job_endpoint j1) (JsonBody (JObj [(''state'', JStr ''Closed'')]))"
  have b: "block (j, tr) = (rb, j1, tr1)"
    using assms by (simp add: Job_enter_def)
  show ?thesis
  proof (cases rb)
    case (Inl x)
    show ?thesis
      using b Inl
      by (cases "srv e tr1 ?close")
         (auto simp: with_Job_def Job_enter_def Job_exit_def Job_close_run py_truthy_def)
  next
    case (Inr v)
    show ?thesis
      using b Inr
      by (cases "srv e tr1 ?close")
         (auto simp: with_Job_def Job_enter_def Job_exit_def Job_close_run py_truthy_def)
  qed
qed

theorem with_Job_closes_witness:
  "with_Job (example_env example_srv) raising_block (example_job [], [])
     = (Inl (RuntimeError ''boom''), example_job [],
        [Post [] ''J1'' (JsonBody (JObj [(''state'', JStr ''Closed'')]))])
   \<and> fst (with_Job (example_env down_srv) raising_block (example_job [], [])) = Inl ConnectionError"
proof -
  have blk: "raising_block (Job_enter (example_job []), []) = (Inl (RuntimeError ''boom''), example_job [], [])"
    by (simp add: raising_block_def Job_enter_def)
  have acc: "\<exists>resp. srv (example_env example_srv) []
                (Post (headers (job_session (example_job []))) (job_endpoint (example_job []))
                   (JsonBody (JObj [(''state'', JStr ''Closed'')]))) = Inr resp \<and> status_code resp < 400"
    by (simp add: example_env_def example_srv_def ok_json_def)
  have down: "srv (example_env down_srv) []
                (Post (headers (job_session (example_job []))) (job_endpoint (example_job []))
                   (JsonBody (JObj [(''state'', JStr ''Closed'')]))) = Inl ConnectionError"
    by (simp add: example_env_def down_srv_def)
  from with_Job_closes [where block = raising_block and j = "example_job []" and tr = "[]"
         and rb = "Inl (RuntimeError ''boom'')" and ?j1.0 = "example_job []" and ?tr1.0 = "[]"
         and e = "example_env example_srv", OF blk] acc
  have one: "with_Job (example_env example_srv) raising_block (example_job [], [])
     = (Inl (RuntimeError ''boom''), example_job [],
        [Post [] ''J1'' (JsonBody (JObj [(''state'', JStr ''Closed'')]))])"
    by (auto simp: example_job_def)
  from with_Job_closes [where block = raising_block and j = "example_job []" and tr = "[]"
         and rb = "Inl (RuntimeError ''boom'')" and ?j1.0 = "example_job []" and ?tr1.0 = "[]"
         and e = "example_env down_srv", OF blk] down
  have two: "fst (with_Job (example_env down_srv) raising_block (example_job [], [])) = Inl ConnectionError"
    by auto
  from one two show ?thesis
    by simp
qed

text \<open>
  The claim as the spec words it, that an exception raised in the block always
  propagates, fails when the close request fails: the block raises RuntimeError,
  the server answers the close with status 500 (or the connection is down), and
  the exception that leaves the with statement is the one of the close.
\<close>

theorem with_Job_failed_close_counterexample:
  "fst (raising_block (Job_enter (example_job []), [])) = Inl (RuntimeError ''boom'')
   \<and> with_Job (example_env failing_srv) raising_block (example_job [], [])
       = (Inl (AttributeError ''status''), example_job [],
          [Post [] ''J1'' (JsonBody (JObj [(''state'', JStr ''Closed'')]))])
   \<and> with_Job (example_env down_srv) raising_block (example_job [], [])
       = (Inl ConnectionError, example_job [],
          [Post [] ''J1'' (JsonBody (JObj [(''state'', JStr ''Closed'')]))])"
  by (simp add: with_Job_def Job_enter_def Job_exit_def Job_close_run raising_block_def
        example_env_def failing_srv_def down_srv_def server_error_def example_job_def)

section \<open>Constructing the client\<close>

lemma login_trace:
  "snd (login e username password host API_version tr)
     = tr @ [Post login_headers (''https://'' @ host @ ''/services/Soap/u/'' @ API_version)
               (DataBody (LOGIN_format (py_str username) (py_str password)))]"
  by (simp add: login_def requests_post_def Let_def split: sum.splits option.splits)

lemma login_Inr:
  "login e username password host API_version tr = (Inr (h, sid), tr') \<Longrightarrow>
     \<exists>reply tree. srv e tr (Post login_headers (''https://'' @ host @ ''/services/Soap/u/'' @ API_version)
               (DataBody (LOGIN_format (py_str username) (py_str password)))) = Inr reply \<and>
        xml_body reply = Some tree \<and> map_of tree SESSION_ID = Some sid"
  by (auto simp: login_def requests_post_def Let_def split: sum.splits option.splits)

lemma SalesforceBulk_init_run:
  assumes "py_bool sessionId \<or> py_bool username"
  shows "\<exists>r. SalesforceBulk_init e sessionId host username password API_version tr
            = (r, tr @ [Post login_headers (''https://'' @ host @ ''/services/Soap/u/'' @ API_version)
                          (DataBody (LOGIN_format (py_str username) (py_str password)))]) \<and>
          (\<forall>other. py_bool other \<or> py_bool username \<longrightarrow>
             SalesforceBulk_init e other host username password API_version tr
               = SalesforceBulk_init e sessionId host username password API_version tr) \<and>
          (\<forall>c. r = Inr c \<longrightarrow>
             (\<exists>reply tree sid.
                srv e tr (Post login_headers (''https://'' @ host @ ''/services/Soap/u/'' @ API_version)
                            (DataBody (LOGIN_format (py_str username) (py_str password)))) = Inr reply \<and>
                xml_body reply = Some tree \<and> map_of tree SESSION_ID = Some sid \<and>
                map_of (headers (bulk_session c)) ''X-SFDC-Session'' = Some sid))"
proof -
  let ?q = "Post login_headers (''https://'' @ host @ ''/services/Soap/u/'' @ API_version)
              (DataBody (LOGIN_format (py_str username) (py_str password)))"
  obtain lr ltr where l: "login e username password host API_version tr = (lr, ltr)"
    by (cases "login e username password host API_version tr") auto
  have ltr: "ltr = tr @ [?q]"
    using login_trace [of e username password host API_version tr] l by simp
  have same: "\<forall>other. py_bool other \<or> py_bool username \<longrightarrow>
             SalesforceBulk_init e other host username password API_version tr
               = SalesforceBulk_init e sessionId host username password API_version tr"
    using assms by (auto simp: SalesforceBulk_init_def)
  show ?thesis
  proof (cases lr)
    case (Inl x)
    then have "SalesforceBulk_init e sessionId host username password API_version tr = (Inl x, tr @ [?q])"
      using assms l ltr by (auto simp: SalesforceBulk_init_def)
    with same show ?thesis
      by auto
  next
    case (Inr hs)
    obtain h sid where hs: "hs = (h, sid)"
      by (cases hs) auto
    from login_Inr [OF l [unfolded Inr hs]] obtain reply tree where rep:
      "srv e tr ?q = Inr reply" "xml_body reply = Some tree" "map_of tree SESSION_ID = Some sid"
      by blast
    let ?s2 = "(new_session e)\<lparr>headers :=
        AList.update ''Content-Type'' (Some ''application/json'')
          (AList.update ''X-SFDC-Session'' sid (headers (new_session e)))\<rparr>"
    let ?c = "\<lparr>bulk_endpoint = ''https://'' @ py_str h @ ''/services/async/'' @ API_version, bulk_session = ?s2\<rparr>"
    have run: "SalesforceBulk_init e sessionId host username password API_version tr = (Inr ?c, tr @ [?q])"
      using assms l ltr Inr hs by (auto simp: SalesforceBulk_init_def Let_def)
    have hd: "map_of (headers (bulk_session ?c)) ''X-SFDC-Session'' = Some sid"
      by (simp add: update_conv')
    show ?thesis
      using run same rep hd by auto
  qed
qed

text \<open>
  C9. When the first check passes (a sessionId or a username is given), the
  constructor makes exactly one request: a POST to the login endpoint of the host
  given, with the headers of a SOAP login, whose body is the login envelope with
  the username and the password given put in their elements (the text None for
  one that is absent). The sessionId argument has no influence on the outcome.
  When a client is built, the header X-SFDC-Session of its session is the session
  id found in the reply to that request.
\<close>

theorem SalesforceBulk_init_login:
  assumes \<open>py_bool sessionId \<or> py_bool username\<close>
  shows \<open>\<exists>r q.
          q = Post [(''Content-Type'', Some ''text/xml; charset=UTF-8''), (''SOAPAction'', Some ''login'')]
                (''https://'' @ host @ ''/services/Soap/u/'' @ API_version)
                (DataBody
                   (''<?xml version="1.0" encoding="utf-8" ?>'' @
                    ''<env:Envelope xmlns:xsd="http://www.w3.org/2001/XMLSchema"'' @
                    ''    xmlns:xsi="http://www.w3.org/2001/XMLSchema-instance"'' @
                    ''    xmlns:env="http://schemas.xmlsoap.org/soap/envelope/">'' @
                    ''  <env:Body>'' @
                    ''    <n1:login xmlns:n1="urn:partner.soap.sforce.com">'' @
                    ''      <n1:username>'' @ (case username of None \<Rightarrow> ''None'' | Some u \<Rightarrow> u) @ ''</n1:username>'' @
                    ''      <n1:password>'' @ (case password of None \<Rightarrow> ''None'' | Some p \<Rightarrow> p) @ ''</n1:password>'' @
                    ''    </n1:login>'' @
                    ''  </env:Body>'' @
                    ''</env:Envelope>'')) \<and>
          SalesforceBulk_init e sessionId host username password API_version tr = (r, tr @ [q]) \<and>
          (\<forall>other. py_bool other \<or> py_bool username \<longrightarrow>
             SalesforceBulk_init e other host username password API_version tr
               = SalesforceBulk_init e sessionId host username password API_version tr) \<and>
          (\<forall>c. r = Inr c \<longrightarrow>
             (\<exists>reply tree sid.
                srv e tr q = Inr reply \<and> xml_body reply = Some tree \<and>
                map_of tree ''.//{urn:partner.soap.sforce.com}sessionId'' = Some sid \<and>
                map_of (headers (bulk_session c)) ''X-SFDC-Session'' = Some sid))\<close>
proof -
  let ?q = "Post login_headers (''https://'' @ host @ ''/services/Soap/u/'' @ API_version)
              (DataBody (LOGIN_format (py_str username) (py_str password)))"
  from SalesforceBulk_init_run [OF assms, of e host password API_version tr]
  obtain r where r:
    "SalesforceBulk_init e sessionId host username password API_version tr = (r, tr @ [?q])"
    "\<forall>other. py_bool other \<or> py_bool username \<longrightarrow>
             SalesforceBulk_init e other host username password API_version tr
               = SalesforceBulk_init e sessionId host username password API_version tr"
    "\<forall>c. r = Inr c \<longrightarrow>
             (\<exists>reply tree sid.
                srv e tr ?q = Inr reply \<and>
                xml_body reply = Some tree \<and> map_of tree SESSION_ID = Some sid \<and>
                map_of (headers (bulk_session c)) ''X-SFDC-Session'' = Some sid)"
    by blast
  show ?thesis
    apply (rule exI [of _ r])
    apply (rule exI [of _ ?q])
    using r by (simp add: login_headers_def LOGIN_format_def py_str_def SESSION_ID_def)
qed

theorem SalesforceBulk_init_login_witness:
  \<open>SalesforceBulk_init (example_env (\<lambda>tr req. Inr login_reply)) (Some ''SUPPLIED'') ''login.salesforce.com''
       None None ''36.0'' []
     = (Inr \<lparr>bulk_endpoint = ''https://na1.salesforce.com/services/async/36.0'',
             bulk_session = \<lparr>headers = [(''X-SFDC-Session'', Some ''SID-OF-LOGIN''),
                                          (''Content-Type'', Some ''application/json'')]\<rparr>\<rparr>,
        [Post [(''Content-Type'', Some ''text/xml; charset=UTF-8''), (''SOAPAction'', Some ''login'')]
           ''https://login.salesforce.com/services/Soap/u/36.0''
           (DataBody
              (''<?xml version="1.0" encoding="utf-8" ?>'' @
               ''<env:Envelope xmlns:xsd="http://www.w3.org/2001/XMLSchema"'' @
               ''    xmlns:xsi="http://www.w3.org/2001/XMLSchema-instance"'' @
               ''    xmlns:env="http://schemas.xmlsoap.org/soap/envelope/">'' @
               ''  <env:Body>'' @
               ''    <n1:login xmlns:n1="urn:partner.soap.sforce.com">'' @
               ''      <n1:username>None</n1:username>'' @
               ''      <n1:password>None</n1:password>'' @
               ''    </n1:login>'' @
               ''  </env:Body>'' @
               ''</env:Envelope>''))])\<close>
proof -
  have pre: "py_bool (Some ''SUPPLIED'') \<or> py_bool None"
    by (simp add: py_bool_def)
  have "fst (SalesforceBulk_init (example_env (\<lambda>tr req. Inr login_reply)) (Some ''SUPPLIED'')
        ''login.salesforce.com'' None None ''36.0'' [])
      = Inr \<lparr>bulk_endpoint = ''https://na1.salesforce.com/services/async/36.0'',
             bulk_session = \<lparr>headers = [(''X-SFDC-Session'', Some ''SID-OF-LOGIN''),
                                          (''Content-Type'', Some ''application/json'')]\<rparr>\<rparr>"
    by (simp add: SalesforceBulk_init_def py_bool_def login_def requests_post_def example_env_def
          login_reply_def SERVER_URL_def SESSION_ID_def py_str_def Let_def)
  with SalesforceBulk_init_login [OF pre, where e = "example_env (\<lambda>tr req. Inr login_reply)"
         and host = "''login.salesforce.com''" and API_version = "''36.0''" and password = None
         and tr = "[]"]
  show ?thesis
    by auto
qed

end
